theory Spec2Isabelle
  imports Main
begin

section \<open>Values, exceptions and the Python operations the builders use\<close>

text \<open>
  The builders work on the records that the catalog service returns as JSON. A record
  is an arbitrary JSON value: nothing in the builders validates its shape before use,
  so the model keeps the whole value space and lets every operation raise where
  Python raises. A mapping keeps its keys in insertion order (an association list
  with distinct keys, looked up with \<open>map_of\<close>). Numbers are integers; a JSON
  fraction behaves like a non-zero integer in every operation modelled here.

  Strings are lists of 8-bit characters with the ASCII character classes and case
  rules; the model is exact for ASCII text.
\<close>

datatype json =
    JNull
  | JBool bool
  | JNum int
  | JStr string
  | JList "json list"
  | JDict "(string \<times> json) list"

datatype exn = AttributeError | TypeError | KeyError | IndexError | ValueError

text \<open>A computation either raises (\<open>Inl\<close>) or returns (\<open>Inr\<close>).\<close>

type_synonym 'a result = "exn + 'a"

definition py_bind :: "'a result \<Rightarrow> ('a \<Rightarrow> 'b result) \<Rightarrow> 'b result" where
  "py_bind m f = (case m of Inl e \<Rightarrow> Inl e | Inr x \<Rightarrow> f x)"

subsection \<open>Characters and strings\<close>

definition is_digit :: "char \<Rightarrow> bool" where
  "is_digit c = (48 \<le> (of_char c :: nat) \<and> (of_char c :: nat) \<le> 57)"

definition is_lower :: "char \<Rightarrow> bool" where
  "is_lower c = (97 \<le> (of_char c :: nat) \<and> (of_char c :: nat) \<le> 122)"

definition is_upper :: "char \<Rightarrow> bool" where
  "is_upper c = (65 \<le> (of_char c :: nat) \<and> (of_char c :: nat) \<le> 90)"

definition is_alpha :: "char \<Rightarrow> bool" where
  "is_alpha c = (is_lower c \<or> is_upper c)"

definition is_alnum :: "char \<Rightarrow> bool" where
  "is_alnum c = (is_alpha c \<or> is_digit c)"

text \<open>\<open>str.isspace\<close> on the first 256 code points.\<close>

definition is_space :: "char \<Rightarrow> bool" where
  "is_space c = (let n = (of_char c :: nat) in
     (9 \<le> n \<and> n \<le> 13) \<or> (28 \<le> n \<and> n \<le> 32) \<or> n = 133 \<or> n = 160)"

definition to_upper :: "char \<Rightarrow> char" where
  "to_upper c = (if is_lower c then char_of (of_char c - 32 :: nat) else c)"

definition to_lower :: "char \<Rightarrow> char" where
  "to_lower c = (if is_upper c then char_of (of_char c + 32 :: nat) else c)"

definition lower :: "string \<Rightarrow> string" where
  "lower s = map to_lower s"

text \<open>
  \<open>str.title()\<close>: a character that follows a cased character is lower-cased, any
  other character is upper-cased.
\<close>

fun title_from :: "bool \<Rightarrow> string \<Rightarrow> string" where
  "title_from previous_is_cased [] = []"
| "title_from previous_is_cased (c # cs) =
     (if previous_is_cased then to_lower c else to_upper c) # title_from (is_alpha c) cs"

definition title :: "string \<Rightarrow> string" where
  "title s = title_from False s"

definition strip :: "string \<Rightarrow> string" where
  "strip s = rev (dropWhile is_space (rev (dropWhile is_space s)))"

definition startswith :: "string \<Rightarrow> string \<Rightarrow> bool" where
  "startswith s p = (take (length p) s = p)"

text \<open>\<open>p in s\<close> on two strings: \<open>p\<close> occurs in \<open>s\<close> as a contiguous block.\<close>

fun str_contains :: "string \<Rightarrow> string \<Rightarrow> bool" where
  "str_contains [] p = (p = [])"
| "str_contains (c # cs) p = (startswith (c # cs) p \<or> str_contains cs p)"

text \<open>\<open>s.split(sep)\<close> for a one-character separator; the result is never empty.\<close>

fun split_on :: "char \<Rightarrow> string \<Rightarrow> string list" where
  "split_on sep [] = [[]]"
| "split_on sep (c # cs) =
     (if c = sep then [] # split_on sep cs
      else (case split_on sep cs of
              [] \<Rightarrow> [[c]]
            | p # ps \<Rightarrow> (c # p) # ps))"

fun join_with :: "string \<Rightarrow> string list \<Rightarrow> string" where
  "join_with sep [] = []"
| "join_with sep [p] = p"
| "join_with sep (p # q # ps) = p @ sep @ join_with sep (q # ps)"

definition py_index :: "'a list \<Rightarrow> nat \<Rightarrow> 'a result" where
  "py_index xs i = (if i < length xs then Inr (xs ! i) else Inl IndexError)"

text \<open>
  \<open>int(s)\<close> on a string of decimal digits (the only strings the version coder passes
  to it); the empty string and any other character raise \<open>ValueError\<close>. Integers are
  unbounded.
\<close>

definition digit_value :: "char \<Rightarrow> int" where
  "digit_value c = int (of_char c) - 48"

definition py_int :: "string \<Rightarrow> int result" where
  "py_int s =
     (if s \<noteq> [] \<and> list_all is_digit s
      then Inr (foldl (\<lambda>acc c. 10 * acc + digit_value c) 0 s)
      else Inl ValueError)"

subsection \<open>Operations on JSON values\<close>

fun truthy :: "json \<Rightarrow> bool" where
  "truthy JNull = False"
| "truthy (JBool b) = b"
| "truthy (JNum n) = (n \<noteq> 0)"
| "truthy (JStr s) = (s \<noteq> [])"
| "truthy (JList xs) = (xs \<noteq> [])"
| "truthy (JDict kvs) = (kvs \<noteq> [])"

text \<open>\<open>d.get(k, default)\<close>: only a mapping has the method.\<close>

fun py_get :: "json \<Rightarrow> string \<Rightarrow> json \<Rightarrow> json result" where
  "py_get (JDict kvs) k dflt =
     Inr (case map_of kvs k of None \<Rightarrow> dflt | Some v \<Rightarrow> v)"
| "py_get _ k dflt = Inl AttributeError"

text \<open>
  \<open>k in c\<close> for a string \<open>k\<close>: key membership on a mapping, substring test on a
  string, element test on a list, \<open>TypeError\<close> on anything else.
\<close>

fun py_contains :: "string \<Rightarrow> json \<Rightarrow> bool result" where
  "py_contains k (JDict kvs) = Inr (map_of kvs k \<noteq> None)"
| "py_contains k (JStr s) = Inr (str_contains s k)"
| "py_contains k (JList xs) = Inr (JStr k \<in> set xs)"
| "py_contains k _ = Inl TypeError"

text \<open>\<open>c[k]\<close> for a string \<open>k\<close>: only a mapping can be indexed by a string.\<close>

fun py_subscript :: "json \<Rightarrow> string \<Rightarrow> json result" where
  "py_subscript (JDict kvs) k =
     (case map_of kvs k of None \<Rightarrow> Inl KeyError | Some v \<Rightarrow> Inr v)"
| "py_subscript _ k = Inl TypeError"

fun py_items :: "json \<Rightarrow> (string \<times> json) list result" where
  "py_items (JDict kvs) = Inr kvs"
| "py_items _ = Inl AttributeError"

section \<open>Version code deriver\<close>

text \<open>
  \<open>FDroidMetadataGenerator.version_to_code\<close> (build_fdroid_repo.py). The \<open>while\<close>
  loop pads the component list to three entries.
\<close>

function pad_parts :: "string list \<Rightarrow> string list" where
  "pad_parts parts = (if length parts < 3 then pad_parts (parts @ [''0'']) else parts)"
  by pat_completeness auto
termination
  by (relation "measure (\<lambda>parts. 3 - length parts)") auto

declare pad_parts.simps [simp del]

text \<open>\<open>int(p) if p else 0\<close>\<close>

definition component :: "string \<Rightarrow> int result" where
  "component p = (if p \<noteq> [] then py_int p else Inr 0)"

text \<open>The three numeric components \<open>(major, minor, patch)\<close> read inside the \<open>try\<close>.\<close>

definition version_components :: "json \<Rightarrow> (int \<times> int \<times> int) result" where
  "version_components version_str =
     (case version_str of
        JStr s \<Rightarrow>
          (let clean_version = filter (\<lambda>c. is_digit c \<or> c = CHR ''.'') s;
               parts = pad_parts (split_on CHR ''.'' clean_version)
           in py_bind (py_index parts 0) (\<lambda>p0.
              py_bind (component p0) (\<lambda>major.
              py_bind (py_index parts 1) (\<lambda>p1.
              py_bind (component p1) (\<lambda>minor.
              py_bind (py_index parts 2) (\<lambda>p2.
              py_bind (component p2) (\<lambda>patch.
              Inr (major, minor, patch))))))))
      | _ \<Rightarrow> Inl TypeError)"

definition version_to_code_body :: "json \<Rightarrow> int result" where
  "version_to_code_body version_str =
     py_bind (version_components version_str) (\<lambda>(major, minor, patch).
       Inr (major * 10000 + minor * 100 + patch))"

text \<open>The bare \<open>except\<close> turns every exception of the body into the value 1.\<close>

definition version_to_code :: "json \<Rightarrow> int" where
  "version_to_code version_str =
     (case version_to_code_body version_str of Inl e \<Rightarrow> 1 | Inr code \<Rightarrow> code)"

text \<open>Strict lexicographic order on \<open>(major, minor, patch)\<close>.\<close>

definition lex_less :: "int \<times> int \<times> int \<Rightarrow> int \<times> int \<times> int \<Rightarrow> bool" where
  "lex_less a b =
     (case a of (a1, a2, a3) \<Rightarrow> case b of (b1, b2, b3) \<Rightarrow>
        a1 < b1 \<or> (a1 = b1 \<and> (a2 < b2 \<or> (a2 = b2 \<and> a3 < b3))))"

section \<open>Identifier sanitizers\<close>

text \<open>
  \<open>HomebrewFormulaGenerator.sanitize_class_name\<close> (build_homebrew_tap.py): the first
  character of the stripped name is read without a check that there is one.
\<close>

definition sanitize_class_name :: "json \<Rightarrow> string result" where
  "sanitize_class_name name =
     (case name of
        JStr n \<Rightarrow>
          (let sanitized = filter is_alnum (title n)
           in py_bind (py_index sanitized 0) (\<lambda>c0.
                Inr (if \<not> is_alpha c0 then ''App'' @ sanitized else sanitized)))
      | _ \<Rightarrow> Inl AttributeError)"

text \<open>
  \<open>sanitize_name\<close> (build.py), on a string: in the class style the first character is
  read only when the stripped name is not empty.
\<close>

definition sanitize_name :: "string \<Rightarrow> string \<Rightarrow> string result" where
  "sanitize_name name style =
     (if style = ''class'' then
        (let sanitized = filter is_alnum (title name)
         in if sanitized \<noteq> []
            then py_bind (py_index sanitized 0) (\<lambda>c0.
                   Inr (if \<not> is_alpha c0 then ''App'' @ sanitized else sanitized))
            else Inr sanitized)
      else if style = ''package'' then
        Inr (filter (\<lambda>c. is_alnum c \<or> c = CHR ''.'') (lower name))
      else if style = ''filename'' then
        Inr (filter (\<lambda>c. is_alnum c \<or> c = CHR ''_'' \<or> c = CHR ''-'')
               (map (\<lambda>c. if c = CHR '' '' then CHR ''-'' else c) (lower name)))
      else Inr name)"

text \<open>
  \<open>WingetManifestGenerator.sanitize_package_id\<close> (build_winget_repo.py); the publisher
  defaults to \<open>OpenLyst\<close>.
\<close>

definition sanitize_package_id :: "json \<Rightarrow> string \<Rightarrow> string result" where
  "sanitize_package_id name publisher =
     (case name of
        JStr n \<Rightarrow>
          (let clean_name = filter is_alnum (title n);
               clean_publisher = filter is_alnum publisher
           in Inr (clean_publisher @ ''.'' @ clean_name))
      | _ \<Rightarrow> Inl AttributeError)"

text \<open>
  \<open>WingetManifestGenerator.create_manifest_directory\<close>: the result is the triple of
  components \<open>(publisher, package_name, version)\<close> appended to the manifests
  directory. Joining a path with a value that is not a string raises \<open>TypeError\<close>.
\<close>

definition create_manifest_directory :: "string \<Rightarrow> json \<Rightarrow> (string \<times> string \<times> string) result" where
  "create_manifest_directory package_id version =
     (let parts = split_on CHR ''.'' package_id
      in py_bind (if length parts > 1 then py_index parts 0 else Inr ''OpenLyst'') (\<lambda>publisher.
         py_bind (if length parts > 1 then Inr (join_with ''.'' (drop 1 parts))
                  else py_index parts 0) (\<lambda>package_name.
         case version of
           JStr v \<Rightarrow> Inr (publisher, package_name, v)
         | _ \<Rightarrow> Inl TypeError)))"

text \<open>\<open>FDroidMetadataGenerator.sanitize_package_id\<close> (build_fdroid_repo.py).\<close>

definition fdroid_sanitize_package_id :: "json \<Rightarrow> json \<Rightarrow> json result" where
  "fdroid_sanitize_package_id bundle_id name =
     (if truthy bundle_id \<and> bundle_id \<noteq> JStr ''unknown'' then Inr bundle_id
      else (case name of
              JStr n \<Rightarrow> Inr (JStr (''ink.openlyst.'' @ filter is_alnum (lower n)))
            | _ \<Rightarrow> Inl AttributeError))"

section \<open>Screenshot processor\<close>

text \<open>
  \<open>_process_screenshots\<close> (build_altstore_repo.py and build.py run the same loop):
  \<open>result\<close> grows by one entry for a string and for a mapping with the key
  \<open>imageURL\<close>; the first ten entries are returned.
\<close>

fun screenshots_loop :: "json list \<Rightarrow> json list \<Rightarrow> json list" where
  "screenshots_loop [] result = result"
| "screenshots_loop (shot # shots) result =
     (case shot of
        JStr s \<Rightarrow> screenshots_loop shots (result @ [shot])
      | JDict kvs \<Rightarrow>
          (case map_of kvs ''imageURL'' of
             Some url \<Rightarrow> screenshots_loop shots (result @ [url])
           | None \<Rightarrow> screenshots_loop shots result)
      | _ \<Rightarrow> screenshots_loop shots result)"

definition process_screenshots :: "json \<Rightarrow> json list" where
  "process_screenshots screenshots =
     take 10 (case screenshots of JList shots \<Rightarrow> screenshots_loop shots [] | _ \<Rightarrow> [])"

text \<open>
  The processor as the specification words it: keep, in order, the entries that are
  strings or mappings with an \<open>imageURL\<close> key (taking that key's value), then truncate.
\<close>

definition kept_screenshot :: "json \<Rightarrow> json option" where
  "kept_screenshot shot =
     (case shot of JStr s \<Rightarrow> Some shot | JDict kvs \<Rightarrow> map_of kvs ''imageURL'' | _ \<Rightarrow> None)"

definition process_screenshots_spec :: "json \<Rightarrow> json list" where
  "process_screenshots_spec screenshots =
     (case screenshots of
        JList shots \<Rightarrow> take 10 (List.map_filter kept_screenshot shots)
      | _ \<Rightarrow> [])"

section \<open>Download resolvers\<close>

text \<open>
  A probe either returns a value from inside the resolver (\<open>Some\<close>) or falls through
  to the code after it (\<open>None\<close>); \<open>or_else\<close> runs the next probe after a fall-through
  and \<open>finish\<close> is the final \<open>return None\<close>.
\<close>

definition or_else :: "json option result \<Rightarrow> json option result \<Rightarrow> json option result" where
  "or_else probe rest =
     py_bind probe (\<lambda>r. case r of Some v \<Rightarrow> Inr (Some v) | None \<Rightarrow> rest)"

definition finish :: "json option result \<Rightarrow> json result" where
  "finish probe = py_bind probe (\<lambda>r. Inr (case r of Some v \<Rightarrow> v | None \<Rightarrow> JNull))"

text \<open>\<open>for key in keys: if key in d and d[key]: return d[key]\<close>\<close>

fun probe_keys :: "string list \<Rightarrow> json \<Rightarrow> json option result" where
  "probe_keys [] d = Inr None"
| "probe_keys (key # keys) d =
     py_bind (py_contains key d) (\<lambda>present.
       if present then
         py_bind (py_subscript d key) (\<lambda>v.
           if truthy v then Inr (Some v) else probe_keys keys d)
       else probe_keys keys d)"

text \<open>
  The loop over package types shared by the Linux and Windows branches: a mapping is
  searched for the architectures \<open>x86_64\<close> and \<open>arm64\<close>, a string is returned when
  \<open>accept\<close> holds for it (non-empty in the Homebrew builders, starting with
  \<open>http\<close> in the Winget builder).
\<close>

fun probe_package_types :: "(string \<Rightarrow> bool) \<Rightarrow> string list \<Rightarrow> json \<Rightarrow> json option result" where
  "probe_package_types accept [] platform_downloads = Inr None"
| "probe_package_types accept (package_type # rest) platform_downloads =
     py_bind (py_contains package_type platform_downloads) (\<lambda>present.
       if present then
         py_bind (py_subscript platform_downloads package_type) (\<lambda>pkg_data.
           case pkg_data of
             JDict kvs \<Rightarrow>
               or_else (probe_keys [''x86_64'', ''arm64''] pkg_data)
                       (probe_package_types accept rest platform_downloads)
           | JStr s \<Rightarrow>
               if accept s then Inr (Some pkg_data)
               else probe_package_types accept rest platform_downloads
           | _ \<Rightarrow> probe_package_types accept rest platform_downloads)
       else probe_package_types accept rest platform_downloads)"

text \<open>The fallback scan over the platform subtree, in the mapping's own order.\<close>

fun scan_arch_items :: "(string \<times> json) list \<Rightarrow> json option" where
  "scan_arch_items [] = None"
| "scan_arch_items ((arch_key, arch_value) # rest) =
     (case arch_value of
        JStr s \<Rightarrow> if startswith s ''http'' then Some arch_value else scan_arch_items rest
      | _ \<Rightarrow> scan_arch_items rest)"

fun scan_items :: "(string \<times> json) list \<Rightarrow> json option" where
  "scan_items [] = None"
| "scan_items ((key, val) # rest) =
     (case val of
        JDict inner \<Rightarrow>
          (case scan_arch_items inner of Some url \<Rightarrow> Some url | None \<Rightarrow> scan_items rest)
      | JStr s \<Rightarrow> if startswith s ''http'' then Some val else scan_items rest
      | _ \<Rightarrow> scan_items rest)"

definition fallback_scan :: "json \<Rightarrow> json option result" where
  "fallback_scan platform_downloads =
     py_bind (py_items platform_downloads) (\<lambda>items. Inr (scan_items items))"

text \<open>\<open>HomebrewFormulaGenerator.get_download_url_for_platform\<close> (build_homebrew_tap.py).\<close>

definition platform_probe :: "string \<Rightarrow> json \<Rightarrow> json option result" where
  "platform_probe platform platform_downloads =
     (if platform = ''macOS'' then
        probe_keys [''universal'', ''arm64'', ''x86_64''] platform_downloads
      else if platform = ''Linux'' then
        probe_package_types (\<lambda>s. s \<noteq> []) [''appimage'', ''zip'', ''deb'', ''rpm'']
          platform_downloads
      else if platform = ''Windows'' then
        probe_package_types (\<lambda>s. s \<noteq> []) [''zip'', ''exe'', ''msi''] platform_downloads
      else Inr None)"

definition get_download_url_for_platform :: "json \<Rightarrow> string \<Rightarrow> json result" where
  "get_download_url_for_platform version platform =
     py_bind (py_get version ''downloads'' (JDict [])) (\<lambda>downloads.
     py_bind (py_get downloads platform (JDict [])) (\<lambda>platform_downloads.
       if \<not> truthy platform_downloads then Inr JNull
       else finish (or_else (platform_probe platform platform_downloads)
                            (fallback_scan platform_downloads))))"

text \<open>
  \<open>HomebrewBuilder.get_download_url_for_platform\<close> (build.py): the same resolver
  without the Windows branch.
\<close>

definition builder_platform_probe :: "string \<Rightarrow> json \<Rightarrow> json option result" where
  "builder_platform_probe platform platform_downloads =
     (if platform = ''macOS'' then
        probe_keys [''universal'', ''arm64'', ''x86_64''] platform_downloads
      else if platform = ''Linux'' then
        probe_package_types (\<lambda>s. s \<noteq> []) [''appimage'', ''zip'', ''deb'', ''rpm'']
          platform_downloads
      else Inr None)"

definition builder_get_download_url_for_platform :: "json \<Rightarrow> string \<Rightarrow> json result" where
  "builder_get_download_url_for_platform version platform =
     py_bind (py_get version ''downloads'' (JDict [])) (\<lambda>downloads.
     py_bind (py_get downloads platform (JDict [])) (\<lambda>platform_downloads.
       if \<not> truthy platform_downloads then Inr JNull
       else finish (or_else (builder_platform_probe platform platform_downloads)
                            (fallback_scan platform_downloads))))"

text \<open>\<open>WingetManifestGenerator.get_windows_download_url\<close> (build_winget_repo.py).\<close>

definition get_windows_download_url :: "json \<Rightarrow> json result" where
  "get_windows_download_url version =
     py_bind (py_get version ''downloads'' (JDict [])) (\<lambda>downloads.
     py_bind (py_get downloads ''Windows'' (JDict [])) (\<lambda>windows_downloads.
       if \<not> truthy windows_downloads then Inr JNull
       else finish (probe_package_types (\<lambda>s. startswith s ''http'')
                      [''exe'', ''msi'', ''msix'', ''zip''] windows_downloads)))"

text \<open>\<open>FDroidMetadataGenerator.get_android_download_url\<close> (build_fdroid_repo.py).\<close>

definition get_android_download_url :: "json \<Rightarrow> json result" where
  "get_android_download_url version =
     py_bind (py_get version ''downloads'' (JDict [])) (\<lambda>downloads.
     py_bind (py_get downloads ''Android'' (JDict [])) (\<lambda>android_downloads.
       if \<not> truthy android_downloads then Inr JNull
       else py_bind (py_contains ''apk'' android_downloads) (\<lambda>present.
              if present then
                py_bind (py_subscript android_downloads ''apk'') (\<lambda>apk.
                  Inr (if truthy apk then apk else JNull))
              else Inr JNull)))"

text \<open>
  The mobile probe chain. \<open>direct_download\<close> is the first probe of
  \<open>extract_ipa_url\<close> and \<open>extract_apk_url\<close>: \<open>downloads[platform]\<close> as a string that
  is not blank, returned stripped.
\<close>

definition direct_download :: "json \<Rightarrow> json option" where
  "direct_download platform_download =
     (case platform_download of
        JStr s \<Rightarrow> if strip s \<noteq> [] then Some (JStr (strip s)) else None
      | _ \<Rightarrow> None)"

definition download_url_field :: "json \<Rightarrow> json option result" where
  "download_url_field version =
     py_bind (py_get version ''downloadURL'' JNull) (\<lambda>download_url.
       case download_url of
         JStr s \<Rightarrow>
           if s \<noteq> [] \<and> startswith (strip s) ''http'' then Inr (Some (JStr (strip s)))
           else Inr None
       | _ \<Rightarrow> Inr None)"

text \<open>\<open>extract_ipa_url\<close> (build_altstore_repo.py and build.py, the same text).\<close>

definition ipa_downloads_probe :: "json \<Rightarrow> json option result" where
  "ipa_downloads_probe version =
     py_bind (py_get version ''downloads'' JNull) (\<lambda>downloads.
       case downloads of
         JDict kvs \<Rightarrow>
           py_bind (py_get downloads ''iOS'' JNull) (\<lambda>ios_download.
             Inr (direct_download ios_download))
       | _ \<Rightarrow> Inr None)"

definition ipa_platform_install_probe :: "json \<Rightarrow> json option result" where
  "ipa_platform_install_probe version =
     py_bind (py_get version ''platformInstall'' JNull) (\<lambda>platform_install.
       case platform_install of
         JDict kvs \<Rightarrow>
           py_bind (py_get platform_install ''iOS'' JNull) (\<lambda>ios_install.
             case ios_install of
               JStr s \<Rightarrow>
                 if strip s \<noteq> [] \<and> startswith s ''http'' then Inr (Some (JStr (strip s)))
                 else Inr None
             | _ \<Rightarrow> Inr None)
       | _ \<Rightarrow> Inr None)"

definition extract_ipa_url :: "json \<Rightarrow> json result" where
  "extract_ipa_url version =
     (case version of
        JDict fields \<Rightarrow>
          finish (or_else (ipa_downloads_probe version)
                 (or_else (ipa_platform_install_probe version)
                          (download_url_field version)))
      | _ \<Rightarrow> Inr JNull)"

text \<open>\<open>FDroidBuilder.extract_apk_url\<close> (build.py).\<close>

definition apk_downloads_probe :: "json \<Rightarrow> json option result" where
  "apk_downloads_probe version =
     py_bind (py_get version ''downloads'' JNull) (\<lambda>downloads.
       case downloads of
         JDict kvs \<Rightarrow>
           py_bind (py_get downloads ''Android'' JNull) (\<lambda>android_download.
             case direct_download android_download of
               Some url \<Rightarrow> Inr (Some url)
             | None \<Rightarrow>
                 (case android_download of
                    JDict nested \<Rightarrow>
                      probe_keys [''apk'', ''universal'', ''arm64'', ''arm'', ''x86_64'', ''x86'']
                        android_download
                  | _ \<Rightarrow> Inr None))
       | _ \<Rightarrow> Inr None)"

definition extract_apk_url :: "json \<Rightarrow> json result" where
  "extract_apk_url version =
     (case version of
        JDict fields \<Rightarrow>
          finish (or_else (apk_downloads_probe version) (download_url_field version))
      | _ \<Rightarrow> Inr JNull)"

section \<open>Manifest emitters and batch loops\<close>

text \<open>
  What a run leaves on disk is recorded as the list of files written, each named by
  the values its path is built from. File contents, the optional size and hash
  lookups (which catch their own failures) and failures of the file system itself
  are outside the model. \<open>urlparse\<close> is taken to succeed on every string.
\<close>

datatype artifact =
    ManifestFile string string string string
  | MetadataFile json
  | FormulaFile string
  | IndexFile
  | RepoInfoFile
  | TapInfoFile

text \<open>
  An emitter returns the files it wrote and whether it reports the application as
  generated, or raises.
\<close>

type_synonym emission = "(artifact list \<times> bool) result"

text \<open>The log calls \<open>app.get('name', 'Unknown')\<close> in front of a \<open>return False\<close>.\<close>

definition log_and_fail :: "json \<Rightarrow> emission" where
  "log_and_fail app = py_bind (py_get app ''name'' (JStr ''Unknown'')) (\<lambda>name. Inr ([], False))"

subsection \<open>Winget (build_winget_repo.py)\<close>

text \<open>
  \<open>generate_version_manifest\<close>: resolves the installer URL, raises \<open>ValueError\<close>
  without one, and parses it to find the installer type.
\<close>

definition generate_version_manifest :: "json \<Rightarrow> json \<Rightarrow> string result" where
  "generate_version_manifest app version =
     py_bind (get_windows_download_url version) (\<lambda>download_url.
       if \<not> truthy download_url then
         py_bind (py_subscript app ''name'') (\<lambda>name. Inl ValueError)
       else (case download_url of
               JStr url \<Rightarrow> py_bind (py_subscript version ''version'') (\<lambda>v. Inr url)
             | _ \<Rightarrow> Inl AttributeError))"

text \<open>The \<open>try\<close> block of \<open>generate_manifests\<close>.\<close>

definition generate_manifests_try :: "json \<Rightarrow> json \<Rightarrow> artifact list result" where
  "generate_manifests_try app latest_version =
     py_bind (py_subscript app ''name'') (\<lambda>name.
     py_bind (sanitize_package_id name ''OpenLyst'') (\<lambda>package_id.
     py_bind (py_subscript latest_version ''version'') (\<lambda>version_str.
     py_bind (create_manifest_directory package_id version_str)
       (\<lambda>(publisher, package_name, version).
     py_bind (generate_version_manifest app latest_version) (\<lambda>installer_url.
       Inr (map (\<lambda>suffix. ManifestFile publisher package_name version (package_id @ suffix))
              [''.installer.yaml'', ''.locale.en-US.yaml'', ''.yaml'']))))))"

text \<open>
  \<open>generate_manifests\<close>: the platform check on the first version stands in front of
  the \<open>try\<close>; the two handlers catch every exception of the block.
\<close>

definition generate_manifests :: "json \<Rightarrow> json list \<Rightarrow> emission" where
  "generate_manifests app versions =
     (if versions = [] then log_and_fail app
      else
        py_bind (py_index versions 0) (\<lambda>latest_version.
        py_bind (py_get latest_version ''platforms'' (JList [])) (\<lambda>app_platforms.
        py_bind (py_contains ''Windows'' app_platforms) (\<lambda>supported.
          if \<not> supported then log_and_fail app
          else (case generate_manifests_try app latest_version of
                  Inl e \<Rightarrow> log_and_fail app
                | Inr files \<Rightarrow> Inr (files, True))))))"

subsection \<open>F-Droid (build_fdroid_repo.py)\<close>

definition generate_metadata_file :: "json \<Rightarrow> json list \<Rightarrow> json \<Rightarrow> emission" where
  "generate_metadata_file app versions package_id =
     (if versions = [] then Inr ([], False)
      else
        py_bind (py_index versions 0) (\<lambda>latest_version.
        py_bind (get_android_download_url latest_version) (\<lambda>download_url.
          if \<not> truthy download_url then
            py_bind (py_subscript app ''name'') (\<lambda>name. Inl ValueError)
          else
            py_bind (py_subscript app ''name'') (\<lambda>name.
            py_bind (py_subscript latest_version ''version'') (\<lambda>version.
              Inr ([MetadataFile package_id], True))))))"

text \<open>The \<open>try\<close> block of \<open>generate_metadata_for_app\<close>.\<close>

definition generate_metadata_try :: "json \<Rightarrow> json list \<Rightarrow> emission" where
  "generate_metadata_try app versions =
     py_bind (py_get app ''bundleIdentifier'' (JStr [])) (\<lambda>bundle_id.
     py_bind (py_subscript app ''name'') (\<lambda>name.
     py_bind (fdroid_sanitize_package_id bundle_id name) (\<lambda>package_id.
       generate_metadata_file app versions package_id)))"

definition generate_metadata_for_app :: "json \<Rightarrow> json list \<Rightarrow> emission" where
  "generate_metadata_for_app app versions =
     (if versions = [] then log_and_fail app
      else
        py_bind (py_index versions 0) (\<lambda>latest_version.
        py_bind (py_get latest_version ''platforms'' (JList [])) (\<lambda>app_platforms.
        py_bind (py_contains ''Android'' app_platforms) (\<lambda>supported.
          if \<not> supported then log_and_fail app
          else (case generate_metadata_try app versions of
                  Inl e \<Rightarrow> log_and_fail app
                | Inr written \<Rightarrow> Inr written)))))"

subsection \<open>Homebrew (build_homebrew_tap.py)\<close>




subsection \<open>The batch loop of the three \<open>main\<close> functions\<close>

record run_state =
  generated_count :: nat
  failed_count :: nat
  written :: "artifact list"

definition initial_state :: run_state where
  "initial_state = \<lparr>generated_count = 0, failed_count = 0, written = []\<rparr>"

text \<open>
  \<open>for app in apps\<close>, with the emitter of the target and the version lists that the
  catalog client returns for each slug. The loop has no handler of its own: an
  exception that leaves the emitter ends the loop with the state reached so far.
\<close>

fun process_apps :: "(json \<Rightarrow> json list \<Rightarrow> emission) \<Rightarrow> (json \<Rightarrow> json list) \<Rightarrow> json list \<Rightarrow> run_state \<Rightarrow> run_state \<times> exn option" where
  "process_apps emit get_app_versions [] st = (st, None)"
| "process_apps emit get_app_versions (app # apps) st =
     (case py_get app ''slug'' JNull of
        Inl e \<Rightarrow> (st, Some e)
      | Inr slug \<Rightarrow>
          if \<not> truthy slug then
            process_apps emit get_app_versions apps (st\<lparr>failed_count := failed_count st + 1\<rparr>)
          else
            (case emit app (get_app_versions slug) of
               Inl e \<Rightarrow> (st, Some e)
             | Inr (files, generated) \<Rightarrow>
                 process_apps emit get_app_versions apps
                   (if generated
                    then st\<lparr>generated_count := generated_count st + 1,
                            written := written st @ files\<rparr>
                    else st\<lparr>failed_count := failed_count st + 1,
                            written := written st @ files\<rparr>)))"

text \<open>The last lines of each \<open>main\<close>.\<close>

definition exit_status :: "run_state \<Rightarrow> int" where
  "exit_status st =
     (if generated_count st = 0 then 1 else if failed_count st > 0 then 0 else 0)"

text \<open>
  A \<open>main\<close> yields the files on disk when it ends, and either the value it returns
  or the exception that ended it.
\<close>

type_synonym run = "artifact list \<times> int result"



text \<open>
  \<open>main\<close> of build_fdroid_repo.py also writes the index when an application was
  generated; the index is keyed by package name, and a list or mapping cannot be a key.
\<close>

fun hashable :: "json \<Rightarrow> bool" where
  "hashable (JList xs) = False"
| "hashable (JDict kvs) = False"
| "hashable _ = True"

fun package_names :: "artifact list \<Rightarrow> json list" where
  "package_names [] = []"
| "package_names (MetadataFile package_id # files) = package_id # package_names files"
| "package_names (f # files) = package_names files"

definition fdroid_main :: "json list \<Rightarrow> (json \<Rightarrow> json list) \<Rightarrow> run" where
  "fdroid_main apps get_app_versions =
     (if apps = [] then ([], Inr 1)
      else (case process_apps generate_metadata_for_app get_app_versions apps initial_state of
              (st, Some e) \<Rightarrow> (written st, Inl e)
            | (st, None) \<Rightarrow>
                if generated_count st > 0 \<and> \<not> list_all hashable (package_names (written st))
                then (written st, Inl TypeError)
                else (written st @ (if generated_count st > 0 then [IndexFile] else [])
                        @ [RepoInfoFile],
                      Inr (exit_status st))))"


text \<open>The applications a run has written: those with a metadata file on disk.\<close>

definition applications_written :: "run \<Rightarrow> nat" where
  "applications_written r = length (package_names (fst r))"

section \<open>Properties of the version coder\<close>

lemma pad_parts_eq: "pad_parts parts = parts @ replicate (3 - length parts) ''0''"
proof (induction parts rule: pad_parts.induct)
  case (1 parts)
  show ?case
  proof (cases "length parts < 3")
    case True
    then have "3 - length parts = Suc (3 - length (parts @ [''0'']))" by simp
    with True 1 show ?thesis
      by (subst pad_parts.simps) (simp add: replicate_app_Cons_same)
  next
    case False
    then show ?thesis by (subst pad_parts.simps) simp
  qed
qed

lemma split_on_not_Nil: "split_on sep s \<noteq> []"
  by (induction s) (auto split: list.splits)

lemma split_on_digits:
  "list_all (\<lambda>c. is_digit c \<or> c = CHR ''.'') s \<Longrightarrow>
   list_all (list_all is_digit) (split_on CHR ''.'' s)"
proof (induction s)
  case Nil
  then show ?case by simp
next
  case (Cons c cs)
  then have ih: "list_all (list_all is_digit) (split_on CHR ''.'' cs)" by simp
  show ?case
  proof (cases "c = CHR ''.''")
    case True
    with ih show ?thesis by simp
  next
    case False
    with Cons.prems have "is_digit c" by simp
    with ih False show ?thesis by (auto split: list.splits)
  qed
qed

lemma digit_value_nonneg: "is_digit c \<Longrightarrow> 0 \<le> digit_value c"
  by (simp add: is_digit_def digit_value_def)

lemma foldl_digits_nonneg:
  "0 \<le> acc \<Longrightarrow> list_all is_digit s \<Longrightarrow>
   0 \<le> foldl (\<lambda>acc c. 10 * acc + digit_value c) acc s"
proof (induction s arbitrary: acc)
  case Nil
  then show ?case by simp
next
  case (Cons c cs)
  then have "0 \<le> 10 * acc + digit_value c"
    using digit_value_nonneg [of c] by simp
  with Cons show ?case by simp
qed

lemma component_digits:
  "list_all is_digit p \<Longrightarrow> \<exists>n. component p = Inr n \<and> 0 \<le> n"
  by (simp add: component_def py_int_def foldl_digits_nonneg)

lemma pad_parts_all:
  assumes "list_all P parts" and "P ''0''"
  shows "list_all P (pad_parts parts)"
proof -
  have "list_all P (replicate (3 - length parts) ''0'')"
    using assms(2) by (induction "3 - length parts") (simp_all add: list_all_iff)
  with assms(1) show ?thesis
    unfolding pad_parts_eq by (simp only: list_all_append simp_thms)
qed

lemma filter_all: "list_all P (filter P s)"
  by (induction s) simp_all

lemma zero_digits: "list_all is_digit ''0''"
  by (simp add: is_digit_def)

lemma version_parts_digits:
  "list_all (list_all is_digit)
     (pad_parts (split_on CHR ''.'' (filter (\<lambda>c. is_digit c \<or> c = CHR ''.'') s)))"
  by (intro pad_parts_all split_on_digits filter_all zero_digits)

lemma version_parts_length:
  "3 \<le> length (pad_parts parts)"
  by (simp add: pad_parts_eq)

lemma version_components_string:
  "\<exists>major minor patch. version_components (JStr s) = Inr (major, minor, patch)
     \<and> 0 \<le> major \<and> 0 \<le> minor \<and> 0 \<le> patch"
proof -
  define parts where
    "parts = pad_parts (split_on CHR ''.'' (filter (\<lambda>c. is_digit c \<or> c = CHR ''.'') s))"
  have len: "3 \<le> length parts" unfolding parts_def by (rule version_parts_length)
  have digs: "list_all (list_all is_digit) parts" unfolding parts_def by (rule version_parts_digits)
  have d: "list_all is_digit (parts ! i)" if "i < 3" for i
    using that len digs by (simp add: list_all_length)
  obtain major where major: "component (parts ! 0) = Inr major" "0 \<le> major"
    using component_digits [OF d [of 0]] by auto
  obtain minor where minor: "component (parts ! 1) = Inr minor" "0 \<le> minor"
    using component_digits [OF d [of 1]] by auto
  obtain patch where patch: "component (parts ! 2) = Inr patch" "0 \<le> patch"
    using component_digits [OF d [of 2]] by auto
  have "version_components (JStr s) = Inr (major, minor, patch)"
  proof -
    have "py_index parts 0 = Inr (parts ! 0)" "py_index parts 1 = Inr (parts ! 1)"
         "py_index parts 2 = Inr (parts ! 2)"
      using len by (auto simp add: py_index_def)
    moreover have "version_components (JStr s) =
        py_bind (py_index parts 0) (\<lambda>p0.
        py_bind (component p0) (\<lambda>major.
        py_bind (py_index parts 1) (\<lambda>p1.
        py_bind (component p1) (\<lambda>minor.
        py_bind (py_index parts 2) (\<lambda>p2.
        py_bind (component p2) (\<lambda>patch.
        Inr (major, minor, patch)))))))"
      unfolding version_components_def parts_def Let_def by simp
    ultimately show ?thesis
      using major(1) minor(1) patch(1) by (simp add: py_bind_def)
  qed
  with major minor patch show ?thesis by blast
qed

lemma version_to_code_value:
  "version_components v = Inr (major, minor, patch) \<Longrightarrow>
   version_to_code v = major * 10000 + minor * 100 + patch"
  by (simp add: version_to_code_def version_to_code_body_def py_bind_def)

lemma version_to_code_no_string:
  "(\<And>s. v \<noteq> JStr s) \<Longrightarrow> version_to_code v = 1"
  by (cases v) (auto simp add: version_to_code_def version_to_code_body_def version_components_def py_bind_def)

text \<open>
  Claim C1, as the code has it. The version coder is total and its result is never
  negative; \<open>1.2.3\<close> gives 10203 and \<open>v2\<close> gives 20000. The empty string and
  \<open>garbage\<close> give 0, not 1: a string without digits leaves three empty components,
  each of which the guard \<open>int(p) if p else 0\<close> reads as 0, so nothing is raised.
  The value 1 comes from the \<open>except\<close> clause only, as for a version that is not
  a string.
\<close>

theorem version_to_code_total:
  "0 \<le> version_to_code v
   \<and> version_to_code (JStr ''1.2.3'') = 10203
   \<and> version_to_code (JStr ''v2'') = 20000
   \<and> version_to_code (JStr '''') = 0
   \<and> version_to_code (JStr ''garbage'') = 0
   \<and> version_to_code JNull = 1"
proof -
  have "0 \<le> version_to_code v"
  proof (cases v)
    case (JStr s)
    obtain major minor patch where
      "version_components (JStr s) = Inr (major, minor, patch)"
      "0 \<le> major" "0 \<le> minor" "0 \<le> patch"
      using version_components_string by blast
    then show ?thesis using JStr by (simp add: version_to_code_value)
  qed (simp_all add: version_to_code_no_string)
  moreover have "version_to_code (JStr ''1.2.3'') = 10203" by code_simp
  moreover have "version_to_code (JStr ''v2'') = 20000" by code_simp
  moreover have "version_to_code (JStr '''') = 0" by code_simp
  moreover have "version_to_code (JStr ''garbage'') = 0" by code_simp
  moreover have "version_to_code JNull = 1" by (simp add: version_to_code_no_string)
  ultimately show ?thesis by simp
qed

text \<open>Claim C1 as stated fails at the empty string and at \<open>garbage\<close>.\<close>

theorem version_to_code_empty_counterexample:
  "version_to_code (JStr '''') \<noteq> 1 \<and> version_to_code (JStr ''garbage'') \<noteq> 1"
proof -
  have "version_to_code (JStr '''') \<noteq> 1" by code_simp
  moreover have "version_to_code (JStr ''garbage'') \<noteq> 1" by code_simp
  ultimately show ?thesis by simp
qed

theorem version_to_code_total_witness:
  "0 \<le> version_to_code (JStr ''1.2.3'')"
  using version_to_code_total [of "JStr ''1.2.3''"] by simp

text \<open>
  Claim C8 as stated fails: the weights 10000 and 100 leave room for two digits only,
  so \<open>1.100.0\<close> and \<open>2.0.0\<close> get the same code although \<open>(1, 100, 0)\<close> is below
  \<open>(2, 0, 0)\<close>.
\<close>

theorem version_code_monotonic_counterexample:
  "version_components (JStr ''1.100.0'') = Inr (1, 100, 0)
   \<and> version_components (JStr ''2.0.0'') = Inr (2, 0, 0)
   \<and> lex_less (1, 100, 0) (2, 0, 0)
   \<and> \<not> version_to_code (JStr ''1.100.0'') < version_to_code (JStr ''2.0.0'')"
proof -
  have "version_components (JStr ''1.100.0'') = Inr (1, 100, 0)" by code_simp
  moreover have "version_components (JStr ''2.0.0'') = Inr (2, 0, 0)" by code_simp
  moreover have "lex_less (1, 100, 0) (2, 0, 0)" by (simp add: lex_less_def)
  moreover have "\<not> version_to_code (JStr ''1.100.0'') < version_to_code (JStr ''2.0.0'')"
    by code_simp
  ultimately show ?thesis by simp
qed

text \<open>
  Claim C8, as the code has it. When the minor and patch components of both versions
  are below 100, the code is strictly monotonic in the lexicographic order of
  \<open>(major, minor, patch)\<close>.
\<close>

theorem version_code_monotonic_below_100:
  assumes "version_components a = Inr (a1, a2, a3)"
      and "version_components b = Inr (b1, b2, b3)"
      and "0 \<le> a2" "a2 < 100" "0 \<le> a3" "a3 < 100"
      and "0 \<le> b2" "b2 < 100" "0 \<le> b3" "b3 < 100"
      and "lex_less (a1, a2, a3) (b1, b2, b3)"
  shows "version_to_code a < version_to_code b"
proof -
  have "a1 * 10000 + a2 * 100 + a3 < b1 * 10000 + b2 * 100 + b3"
    using assms(3-11) by (auto simp: lex_less_def)
  then show ?thesis
    using assms(1,2) by (simp add: version_to_code_value)
qed

theorem version_code_monotonic_below_100_witness:
  "version_components (JStr ''1.99.99'') = Inr (1, 99, 99)
   \<and> version_components (JStr ''2.0.0'') = Inr (2, 0, 0)
   \<and> lex_less (1, 99, 99) (2, 0, 0)
   \<and> version_to_code (JStr ''1.99.99'') < version_to_code (JStr ''2.0.0'')"
proof -
  have a: "version_components (JStr ''1.99.99'') = Inr (1, 99, 99)" by code_simp
  have b: "version_components (JStr ''2.0.0'') = Inr (2, 0, 0)" by code_simp
  have l: "lex_less (1, 99, 99) (2, 0, 0)" by (simp add: lex_less_def)
  from version_code_monotonic_below_100 [OF a b _ _ _ _ _ _ _ _ l]
  have "version_to_code (JStr ''1.99.99'') < version_to_code (JStr ''2.0.0'')" by simp
  with a b l show ?thesis by simp
qed

section \<open>Properties of the identifier sanitizers\<close>

lemma of_char_upper: "is_lower c \<Longrightarrow> (of_char (to_upper c) :: nat) = of_char c - 32"
  by (auto simp add: to_upper_def is_lower_def)

lemma of_char_lower: "is_upper c \<Longrightarrow> (of_char (to_lower c) :: nat) = of_char c + 32"
  by (auto simp add: to_lower_def is_upper_def)

lemma is_alpha_to_upper: "is_alpha (to_upper c) = is_alpha c"
proof (cases "is_lower c")
  case True
  then have "is_upper (to_upper c)"
    using True of_char_upper [OF True] by (auto simp add: is_upper_def is_lower_def)
  with True show ?thesis by (simp add: is_alpha_def)
next
  case False
  then show ?thesis by (simp add: to_upper_def)
qed

lemma is_alpha_to_lower: "is_alpha (to_lower c) = is_alpha c"
proof (cases "is_upper c")
  case True
  then have "is_lower (to_lower c)"
    using True of_char_lower [OF True] by (auto simp add: is_upper_def is_lower_def)
  with True show ?thesis by (simp add: is_alpha_def)
next
  case False
  then show ?thesis by (simp add: to_lower_def)
qed

lemma is_digit_to_upper: "is_digit (to_upper c) = is_digit c"
proof (cases "is_lower c")
  case True
  then have "\<not> is_digit (to_upper c)" "\<not> is_digit c"
    using True of_char_upper [OF True] by (auto simp add: is_digit_def is_lower_def)
  then show ?thesis by simp
next
  case False
  then show ?thesis by (simp add: to_upper_def)
qed

lemma is_digit_to_lower: "is_digit (to_lower c) = is_digit c"
proof (cases "is_upper c")
  case True
  then have "\<not> is_digit (to_lower c)" "\<not> is_digit c"
    using True of_char_lower [OF True] by (auto simp add: is_digit_def is_upper_def)
  then show ?thesis by simp
next
  case False
  then show ?thesis by (simp add: to_lower_def)
qed

lemma is_alnum_case:
  "is_alnum (to_upper c) = is_alnum c" "is_alnum (to_lower c) = is_alnum c"
  by (simp_all add: is_alnum_def is_alpha_to_upper is_alpha_to_lower
        is_digit_to_upper is_digit_to_lower)

lemma title_from_alnum: "map is_alnum (title_from b s) = map is_alnum s"
  by (induction s arbitrary: b) (simp_all add: is_alnum_case)

lemma map_eq_filter_Nil:
  "map P xs = map P ys \<Longrightarrow> (filter P xs = []) = (filter P ys = [])"
proof (induction xs arbitrary: ys)
  case Nil
  then show ?case by simp
next
  case (Cons x xs)
  then obtain y ys' where "ys = y # ys'" "P x = P y" "map P xs = map P ys'" by auto
  with Cons.IH [of ys'] show ?case by simp
qed

lemma title_stripped_empty:
  "(filter is_alnum (title name) = []) = (\<not> list_ex is_alnum name)"
proof -
  have "(filter is_alnum (title name) = []) = (filter is_alnum name = [])"
    unfolding title_def by (rule map_eq_filter_Nil) (rule title_from_alnum)
  then show ?thesis by (simp add: filter_empty_conv list_ex_iff)
qed

lemma py_index_hd: "xs \<noteq> [] \<Longrightarrow> py_index xs 0 = Inr (hd xs)"
  by (cases xs) (simp_all add: py_index_def)

lemma app_alnum: "list_all is_alnum ''App''"
  by (simp add: is_alnum_def is_alpha_def is_lower_def is_upper_def)

lemma sanitize_name_class_value:
  "sanitize_name name ''class'' =
     Inr (let stripped = filter is_alnum (title name)
          in if stripped = [] then []
             else if is_alpha (hd stripped) then stripped else ''App'' @ stripped)"
  by (simp add: sanitize_name_def Let_def py_index_hd py_bind_def)

lemma sanitize_class_name_value:
  "filter is_alnum (title name) \<noteq> [] \<Longrightarrow>
   sanitize_class_name (JStr name) = sanitize_name name ''class''"
  by (simp add: sanitize_name_def sanitize_class_name_def Let_def py_index_hd py_bind_def)

text \<open>
  The shape of the class-style result. \<open>sanitize_name\<close> returns on every name; the
  result holds letters and digits only and is empty or starts with a letter, and it is
  empty exactly when the name has no letter or digit. Where the name has one,
  \<open>sanitize_class_name\<close> returns the same string.
\<close>

lemma sanitize_name_class_shape:
  "\<exists>r. sanitize_name name ''class'' = Inr r
       \<and> list_all is_alnum r
       \<and> (r = [] \<or> is_alpha (hd r))
       \<and> (r = []) = (\<not> list_ex is_alnum name)
       \<and> (list_ex is_alnum name \<longrightarrow> sanitize_class_name (JStr name) = Inr r)"
proof -
  define stripped where "stripped = filter is_alnum (title name)"
  define r where
    "r = (if stripped = [] then []
          else if is_alpha (hd stripped) then stripped else ''App'' @ stripped)"
  have val: "sanitize_name name ''class'' = Inr r"
    by (simp add: sanitize_name_class_value r_def stripped_def Let_def)
  have all: "list_all is_alnum stripped"
    unfolding stripped_def by (simp add: list_all_iff)
  have "list_all is_alnum r"
    using all app_alnum by (simp add: r_def)
  moreover have "r = [] \<or> is_alpha (hd r)"
    by (simp add: r_def is_alpha_def is_upper_def)
  moreover have empty: "(r = []) = (\<not> list_ex is_alnum name)"
    using title_stripped_empty [of name] by (simp add: r_def stripped_def)
  moreover have "sanitize_class_name (JStr name) = Inr r" if "list_ex is_alnum name"
    using that title_stripped_empty [of name] sanitize_class_name_value [of name] val
    by simp
  ultimately show ?thesis using val by blast
qed

lemma sanitize_name_class_shape_example:
  "sanitize_name ''3d viewer'' ''class'' = Inr ''App3DViewer''
   \<and> sanitize_class_name (JStr ''3d viewer'') = Inr ''App3DViewer''"
proof -
  have v: "sanitize_name ''3d viewer'' ''class'' = Inr ''App3DViewer''" by code_simp
  have ex: "list_ex is_alnum ''3d viewer''" by code_simp
  from sanitize_name_class_shape [of "''3d viewer''"] v ex show ?thesis by auto
qed

text \<open>
  Claim C3: the class-style sanitizer never fails, and a name that strips to the
  empty string gets the fixed prefix. The code breaks this on such a name, here
  \<open>!!!\<close>: \<open>sanitize_class_name\<close> of build_homebrew_tap.py reads \<open>sanitized[0]\<close>
  of the empty string and raises \<open>IndexError\<close>, under the comment that says it
  ensures a leading letter; \<open>sanitize_name\<close> of build.py has the guard against the
  crash but returns the empty string, which is no class name, without the prefix.
\<close>

theorem sanitize_class_name_empty_raises:
  "sanitize_name ''!!!'' ''class'' = Inr []
   \<and> sanitize_class_name (JStr ''!!!'') = Inl IndexError"
proof -
  have "sanitize_name ''!!!'' ''class'' = Inr []" by code_simp
  moreover have "sanitize_class_name (JStr ''!!!'') = Inl IndexError" by code_simp
  ultimately show ?thesis by simp
qed

lemma openlyst_alnum: "filter is_alnum ''OpenLyst'' = ''OpenLyst''"
  by code_simp

lemma split_openlyst: "split_on CHR ''.'' ''OpenLyst.'' = [''OpenLyst'', []]"
  by simp

lemma create_manifest_directory_empty_name:
  "create_manifest_directory ''OpenLyst.'' (JStr v) = Inr (''OpenLyst'', [], v)"
  unfolding create_manifest_directory_def split_openlyst
  by (simp add: py_bind_def py_index_def)

text \<open>
  Claim C10. With the default publisher the package identifier starts with
  \<open>OpenLyst.\<close> and holds only letters, digits and dots. For a name without a letter
  or digit the identifier is \<open>OpenLyst.\<close>, and the manifest directory made from it
  has the publisher component \<open>OpenLyst\<close> and an empty package-name component.
\<close>

theorem winget_package_id:
  "\<exists>package_id. sanitize_package_id (JStr name) ''OpenLyst'' = Inr package_id
     \<and> startswith package_id ''OpenLyst.''
     \<and> list_all (\<lambda>c. is_alnum c \<or> c = CHR ''.'') package_id
     \<and> (\<not> list_ex is_alnum name \<longrightarrow>
          package_id = ''OpenLyst.''
          \<and> create_manifest_directory package_id (JStr v) = Inr (''OpenLyst'', [], v))"
proof -
  define clean_name where "clean_name = filter is_alnum (title name)"
  define package_id where "package_id = ''OpenLyst.'' @ clean_name"
  have val: "sanitize_package_id (JStr name) ''OpenLyst'' = Inr package_id"
    unfolding sanitize_package_id_def package_id_def clean_name_def
    by (simp only: json.case Let_def openlyst_alnum append_Cons append_Nil)
  have "startswith package_id ''OpenLyst.''"
    by (simp add: startswith_def package_id_def)
  moreover have "list_all (\<lambda>c. is_alnum c \<or> c = CHR ''.'') clean_name"
    by (simp add: clean_name_def list_all_iff)
  moreover have "list_all (\<lambda>c. is_alnum c \<or> c = CHR ''.'') ''OpenLyst.''"
    by code_simp
  ultimately have shape: "startswith package_id ''OpenLyst.''"
    "list_all (\<lambda>c. is_alnum c \<or> c = CHR ''.'') package_id"
    by (simp_all only: package_id_def list_all_append simp_thms)
  have "package_id = ''OpenLyst.''
        \<and> create_manifest_directory package_id (JStr v) = Inr (''OpenLyst'', [], v)"
    if "\<not> list_ex is_alnum name"
  proof -
    from that have "clean_name = []"
      using title_stripped_empty [of name] by (simp add: clean_name_def)
    then have "package_id = ''OpenLyst.''" by (simp add: package_id_def)
    then show ?thesis by (simp only: create_manifest_directory_empty_name simp_thms)
  qed
  with val shape show ?thesis by blast
qed

theorem winget_package_id_witness:
  "sanitize_package_id (JStr ''***'') ''OpenLyst'' = Inr ''OpenLyst.''
   \<and> create_manifest_directory ''OpenLyst.'' (JStr ''1.0'') = Inr (''OpenLyst'', [], ''1.0'')"
proof -
  have n: "\<not> list_ex is_alnum ''***''" by code_simp
  from winget_package_id [of "''***''" "''1.0''"] n show ?thesis by auto
qed

section \<open>Properties of the screenshot processor\<close>

lemma screenshots_loop_eq:
  "screenshots_loop shots result = result @ List.map_filter kept_screenshot shots"
proof (induction shots arbitrary: result)
  case Nil
  then show ?case by (simp add: List.map_filter_simps)
next
  case (Cons shot shots)
  show ?case
    by (cases shot)
       (simp_all add: Cons.IH List.map_filter_simps kept_screenshot_def split: option.splits)
qed

text \<open>
  Claim C9. The screenshot processor returns what the specification describes: the
  empty list for anything that is not a list, otherwise the kept entries in order,
  cut to the first ten; so the result never has more than ten entries.
\<close>

theorem process_screenshots_refines:
  "process_screenshots screenshots = process_screenshots_spec screenshots
   \<and> length (process_screenshots screenshots) \<le> 10
   \<and> (case screenshots of JList shots \<Rightarrow> True | _ \<Rightarrow> process_screenshots screenshots = [])"
proof -
  have "process_screenshots screenshots = process_screenshots_spec screenshots"
    by (cases screenshots)
       (simp_all add: process_screenshots_def process_screenshots_spec_def screenshots_loop_eq)
  moreover have "length (process_screenshots screenshots) \<le> 10"
    by (simp add: process_screenshots_def)
  moreover have "case screenshots of JList shots \<Rightarrow> True | _ \<Rightarrow> process_screenshots screenshots = []"
    by (cases screenshots) (simp_all add: process_screenshots_def)
  ultimately show ?thesis by simp
qed

theorem process_screenshots_refines_witness:
  "process_screenshots
     (JList [JStr ''a'', JNum 3, JDict [(''imageURL'', JStr ''b'')], JDict [(''url'', JStr ''c'')]])
   = [JStr ''a'', JStr ''b'']"
proof -
  have "process_screenshots_spec
     (JList [JStr ''a'', JNum 3, JDict [(''imageURL'', JStr ''b'')], JDict [(''url'', JStr ''c'')]])
   = [JStr ''a'', JStr ''b'']"
    by (simp add: process_screenshots_spec_def List.map_filter_simps kept_screenshot_def)
  with process_screenshots_refines
    [of "JList [JStr ''a'', JNum 3, JDict [(''imageURL'', JStr ''b'')], JDict [(''url'', JStr ''c'')]]"]
  show ?thesis by simp
qed

section \<open>Properties of the download resolvers\<close>

lemma startswith_http_nonempty: "startswith s ''http'' \<Longrightarrow> s \<noteq> []"
  by (auto simp add: startswith_def)

lemma py_bind_Inr [simp]: "py_bind (Inr x) f = f x"
  by (simp add: py_bind_def)

lemma py_bind_Inl [simp]: "py_bind (Inl e) f = Inl e"
  by (simp add: py_bind_def)

lemma py_bind_eq_Inr:
  "(py_bind m f = Inr y) = (\<exists>x. m = Inr x \<and> f x = Inr y)"
  by (cases m) simp_all

lemma or_else_Some:
  "(or_else probe rest = Inr (Some v)) =
     (probe = Inr (Some v) \<or> (probe = Inr None \<and> rest = Inr (Some v)))"
  by (cases probe) (auto simp add: or_else_def split: option.splits)

lemma finish_eq:
  "(finish probe = Inr v) = (probe = Inr (Some v) \<or> (probe = Inr None \<and> v = JNull))"
  by (cases probe) (auto simp add: finish_def split: option.splits)

lemma probe_keys_truthy:
  "probe_keys keys d = Inr (Some v) \<Longrightarrow> truthy v"
proof (induction keys)
  case Nil
  then show ?case by simp
next
  case (Cons key keys)
  then show ?case
    by (auto simp add: py_bind_eq_Inr split: if_splits)
qed

lemma probe_package_types_truthy:
  assumes "\<And>s. accept s \<Longrightarrow> s \<noteq> []"
  shows "probe_package_types accept types d = Inr (Some v) \<Longrightarrow> truthy v"
proof (induction types)
  case Nil
  then show ?case by simp
next
  case (Cons package_type rest)
  note step = Cons.prems [simplified probe_package_types.simps]
  show ?case
  proof (cases "py_contains package_type d")
    case (Inl e)
    with step show ?thesis by simp
  next
    case present: (Inr present)
    show ?thesis
    proof (cases present)
      case False
      with step present show ?thesis by (simp add: Cons.IH)
    next
      case True
      show ?thesis
      proof (cases "py_subscript d package_type")
        case (Inl e)
        with step present True show ?thesis by simp
      next
        case pkg: (Inr pkg_data)
        show ?thesis
        proof (cases pkg_data)
          case (JDict kvs)
          with step present True pkg
          have "or_else (probe_keys [''x86_64'', ''arm64''] pkg_data)
                  (probe_package_types accept rest d) = Inr (Some v)"
            by simp
          then show ?thesis
            unfolding or_else_Some by (blast dest: probe_keys_truthy Cons.IH)
        next
          case (JStr s)
          show ?thesis
          proof (cases "accept s")
            case accepted: True
            with step present True pkg JStr have "v = JStr s" by simp
            with assms [OF accepted] show ?thesis by simp
          next
            case False
            with step present True pkg JStr show ?thesis by (simp add: Cons.IH)
          qed
        qed (use step present True pkg in \<open>simp_all add: Cons.IH\<close>)
      qed
    qed
  qed
qed

lemma scan_arch_items_truthy: "scan_arch_items items = Some v \<Longrightarrow> truthy v"
proof (induction items)
  case Nil
  then show ?case by simp
next
  case (Cons item items)
  obtain arch_key arch_value where item: "item = (arch_key, arch_value)" by (cases item)
  show ?case
  proof (cases arch_value)
    case (JStr s)
    with Cons item show ?thesis
      by (cases "startswith s ''http''") (auto dest: startswith_http_nonempty)
  qed (use Cons item in simp_all)
qed

lemma scan_items_truthy: "scan_items items = Some v \<Longrightarrow> truthy v"
proof (induction items)
  case Nil
  then show ?case by simp
next
  case (Cons item items)
  obtain key val where item: "item = (key, val)" by (cases item)
  show ?case
  proof (cases val)
    case (JStr s)
    with Cons item show ?thesis
      by (cases "startswith s ''http''") (auto dest: startswith_http_nonempty)
  next
    case (JDict inner)
    with Cons item show ?thesis
      by (cases "scan_arch_items inner") (auto dest: scan_arch_items_truthy)
  qed (use Cons item in simp_all)
qed

lemma fallback_scan_truthy: "fallback_scan d = Inr (Some v) \<Longrightarrow> truthy v"
  by (auto simp add: fallback_scan_def py_bind_eq_Inr dest: scan_items_truthy)

lemma platform_probe_truthy: "platform_probe platform d = Inr (Some v) \<Longrightarrow> truthy v"
  by (auto simp add: platform_probe_def split: if_splits
        simp del: probe_keys.simps probe_package_types.simps
        dest: probe_keys_truthy probe_package_types_truthy [rotated])

lemma get_download_url_for_platform_result:
  "get_download_url_for_platform version platform = Inr v \<Longrightarrow> v = JNull \<or> truthy v"
  by (auto simp add: get_download_url_for_platform_def py_bind_eq_Inr finish_eq or_else_Some
        split: if_splits dest: platform_probe_truthy fallback_scan_truthy)

lemma get_windows_download_url_result:
  "get_windows_download_url version = Inr v \<Longrightarrow> v = JNull \<or> truthy v"
  by (auto simp add: get_windows_download_url_def py_bind_eq_Inr finish_eq
        simp del: probe_keys.simps probe_package_types.simps
        split: if_splits
        dest: probe_package_types_truthy [rotated] startswith_http_nonempty)

lemma direct_download_Some:
  "direct_download d = Some v \<Longrightarrow> \<exists>s. v = JStr s \<and> s \<noteq> []"
  by (cases d) (auto simp add: direct_download_def split: if_splits)

lemma ipa_downloads_probe_result:
  "\<exists>r. ipa_downloads_probe (JDict entries) = Inr r
       \<and> (r = None \<or> (\<exists>s. r = Some (JStr s) \<and> s \<noteq> []))"
proof (cases "map_of entries ''downloads''")
  case None
  then show ?thesis by (simp add: ipa_downloads_probe_def)
next
  case (Some downloads)
  show ?thesis
  proof (cases downloads)
    case (JDict kvs)
    obtain d where d: "(case map_of kvs ''iOS'' of None \<Rightarrow> JNull | Some v \<Rightarrow> v) = d" by simp
    have "direct_download d = None \<or> (\<exists>s. direct_download d = Some (JStr s) \<and> s \<noteq> [])"
      using direct_download_Some [of d] by (cases "direct_download d") auto
    with Some JDict d show ?thesis by (simp add: ipa_downloads_probe_def)
  qed (use Some in \<open>simp_all add: ipa_downloads_probe_def\<close>)
qed

lemma strip_startswith_nonempty: "startswith (strip s) ''http'' \<Longrightarrow> strip s \<noteq> []"
  by (rule startswith_http_nonempty)

lemma ipa_platform_install_probe_result:
  "\<exists>r. ipa_platform_install_probe (JDict entries) = Inr r
       \<and> (r = None \<or> (\<exists>s. r = Some (JStr s) \<and> s \<noteq> []))"
proof (cases "map_of entries ''platformInstall''")
  case None
  then show ?thesis by (simp add: ipa_platform_install_probe_def)
next
  case (Some platform_install)
  show ?thesis
  proof (cases platform_install)
    case (JDict kvs)
    obtain d where d: "(case map_of kvs ''iOS'' of None \<Rightarrow> JNull | Some v \<Rightarrow> v) = d" by simp
    show ?thesis
      using Some JDict d by (cases d) (simp_all add: ipa_platform_install_probe_def)
  qed (use Some in \<open>simp_all add: ipa_platform_install_probe_def\<close>)
qed

lemma download_url_field_result:
  "\<exists>r. download_url_field (JDict entries) = Inr r
       \<and> (r = None \<or> (\<exists>s. r = Some (JStr s) \<and> s \<noteq> []))"
proof -
  obtain d where d: "(case map_of entries ''downloadURL'' of None \<Rightarrow> JNull | Some v \<Rightarrow> v) = d"
    by simp
  show ?thesis
    using d by (cases d) (auto simp add: download_url_field_def dest: strip_startswith_nonempty)
qed

lemma chain_result:
  assumes "\<exists>r. a = Inr r \<and> (r = None \<or> (\<exists>s. r = Some (JStr s) \<and> s \<noteq> []))"
      and "\<exists>r. b = Inr r \<and> (r = None \<or> (\<exists>s. r = Some (JStr s) \<and> s \<noteq> []))"
  shows "\<exists>r. or_else a b = Inr r \<and> (r = None \<or> (\<exists>s. r = Some (JStr s) \<and> s \<noteq> []))"
  using assms by (auto simp add: or_else_def)

lemma finish_result:
  assumes "\<exists>r. a = Inr r \<and> (r = None \<or> (\<exists>s. r = Some (JStr s) \<and> s \<noteq> []))"
  shows "finish a = Inr JNull \<or> (\<exists>s. s \<noteq> [] \<and> finish a = Inr (JStr s))"
  using assms by (auto simp add: finish_def)

lemma extract_ipa_url_result:
  "extract_ipa_url version = Inr JNull
   \<or> (\<exists>s. s \<noteq> [] \<and> extract_ipa_url version = Inr (JStr s))"
proof (cases version)
  case (JDict entries)
  have "finish (or_else (ipa_downloads_probe (JDict entries))
                 (or_else (ipa_platform_install_probe (JDict entries))
                          (download_url_field (JDict entries)))) = Inr JNull
        \<or> (\<exists>s. s \<noteq> [] \<and>
             finish (or_else (ipa_downloads_probe (JDict entries))
                 (or_else (ipa_platform_install_probe (JDict entries))
                          (download_url_field (JDict entries)))) = Inr (JStr s))"
    by (intro finish_result chain_result ipa_downloads_probe_result
          ipa_platform_install_probe_result download_url_field_result)
  with JDict show ?thesis by (simp add: extract_ipa_url_def)
qed (simp_all add: extract_ipa_url_def)

lemma map_of_fresh_entry:
  "k \<notin> fst ` set before \<Longrightarrow>
   map_of (before @ (k, x) # after) a = (if a = k then Some x else map_of (before @ after) a)"
  by (induction before) auto

lemma map_of_fresh_absent:
  "k \<notin> fst ` set (before @ after) \<Longrightarrow> map_of (before @ after) k = None"
  by (simp only: map_of_eq_None_iff not_False_eq_True)

lemma probe_keys_same_lookups:
  assumes "\<And>a. map_of d a = (if a = k then Some (JStr []) else map_of d' a)"
      and "map_of d' k = None"
  shows "probe_keys keys (JDict d) = probe_keys keys (JDict d')"
proof (induction keys)
  case Nil
  show ?case by simp
next
  case (Cons key keys)
  show ?case
  proof (cases "key = k")
    case True
    have c: "py_contains key (JDict d) = Inr True"
      "py_subscript (JDict d) key = Inr (JStr [])"
      "py_contains key (JDict d') = Inr False"
      using True assms by simp_all
    show ?thesis unfolding probe_keys.simps c Cons.IH by simp
  next
    case False
    have c: "py_contains key (JDict d) = py_contains key (JDict d')"
      "py_subscript (JDict d) key = py_subscript (JDict d') key"
      using False assms(1) by simp_all
    show ?thesis unfolding probe_keys.simps c Cons.IH by (rule refl)
  qed
qed

lemma probe_package_types_same_lookups:
  assumes "\<And>a. map_of d a = (if a = k then Some (JStr []) else map_of d' a)"
      and "map_of d' k = None" and "\<not> accept []"
  shows "probe_package_types accept types (JDict d) = probe_package_types accept types (JDict d')"
proof (induction types)
  case Nil
  show ?case by simp
next
  case (Cons package_type rest)
  show ?case
  proof (cases "package_type = k")
    case True
    have c: "py_contains package_type (JDict d) = Inr True"
      "py_subscript (JDict d) package_type = Inr (JStr [])"
      "py_contains package_type (JDict d') = Inr False"
      using True assms(1,2) by simp_all
    show ?thesis unfolding probe_package_types.simps c Cons.IH by (simp add: assms(3))
  next
    case False
    have c: "py_contains package_type (JDict d) = py_contains package_type (JDict d')"
      "py_subscript (JDict d) package_type = py_subscript (JDict d') package_type"
      using False assms(1) by simp_all
    show ?thesis unfolding probe_package_types.simps c Cons.IH by (rule refl)
  qed
qed

lemma probe_keys_empty_entry:
  assumes "k \<notin> fst ` set (before @ after)"
  shows "probe_keys keys (JDict (before @ (k, JStr []) # after))
         = probe_keys keys (JDict (before @ after))"
proof (rule probe_keys_same_lookups)
  from assms have "k \<notin> fst ` set before" by (simp add: image_Un)
  then show "map_of (before @ (k, JStr []) # after) a
             = (if a = k then Some (JStr []) else map_of (before @ after) a)" for a
    by (rule map_of_fresh_entry)
  from assms show "map_of (before @ after) k = None" by (rule map_of_fresh_absent)
qed

lemma probe_package_types_empty_entry:
  assumes "k \<notin> fst ` set (before @ after)" and "\<not> accept []"
  shows "probe_package_types accept types (JDict (before @ (k, JStr []) # after))
         = probe_package_types accept types (JDict (before @ after))"
proof (rule probe_package_types_same_lookups)
  from assms(1) have "k \<notin> fst ` set before" by (simp add: image_Un)
  then show "map_of (before @ (k, JStr []) # after) a
             = (if a = k then Some (JStr []) else map_of (before @ after) a)" for a
    by (rule map_of_fresh_entry)
  from assms(1) show "map_of (before @ after) k = None" by (rule map_of_fresh_absent)
  from assms(2) show "\<not> accept []" .
qed

lemma scan_items_empty_entry:
  "scan_items (before @ (k, JStr []) # after) = scan_items (before @ after)"
proof (induction before)
  case Nil
  show ?case by (simp add: startswith_def)
next
  case (Cons item before)
  obtain key val where item: "item = (key, val)" by (cases item)
  show ?case unfolding item append_Cons scan_items.simps Cons.IH by (rule refl)
qed

lemma probe_keys_no_entries: "probe_keys keys (JDict []) = Inr None"
  by (induction keys) simp_all

lemma probe_package_types_no_entries: "probe_package_types accept types (JDict []) = Inr None"
  by (induction types) simp_all

lemma platform_probe_empty_entry:
  assumes "k \<notin> fst ` set (before @ after)"
  shows "platform_probe platform (JDict (before @ (k, JStr []) # after))
         = platform_probe platform (JDict (before @ after))"
  unfolding platform_probe_def
  by (simp only: probe_keys_empty_entry [OF assms]
        probe_package_types_empty_entry [OF assms] simp_thms)

lemma platform_probe_no_entries: "platform_probe platform (JDict []) = Inr None"
  unfolding platform_probe_def
  by (simp only: probe_keys_no_entries probe_package_types_no_entries if_cancel)

lemma homebrew_subtree_empty_entry:
  assumes "k \<notin> fst ` set (before @ after)"
  shows "finish (or_else (platform_probe platform (JDict (before @ (k, JStr []) # after)))
                         (fallback_scan (JDict (before @ (k, JStr []) # after))))
         = (if before @ after = [] then Inr JNull
            else finish (or_else (platform_probe platform (JDict (before @ after)))
                                 (fallback_scan (JDict (before @ after)))))"
proof (cases "before @ after = []")
  case True
  then have "before = []" "after = []" by simp_all
  with platform_probe_empty_entry [OF assms, of platform]
  have "platform_probe platform (JDict [(k, JStr [])]) = Inr None"
    by (simp only: append_Nil platform_probe_no_entries)
  with True \<open>before = []\<close> \<open>after = []\<close> show ?thesis
    by (simp add: fallback_scan_def or_else_def finish_def startswith_def)
next
  case False
  then show ?thesis
    by (simp only: platform_probe_empty_entry [OF assms] fallback_scan_def py_items.simps
          py_bind_Inr scan_items_empty_entry if_False)
qed

lemma homebrew_empty_entry:
  assumes "map_of entries ''downloads'' = Some (JDict downloads)"
      and "map_of downloads platform = Some (JDict (before @ (k, JStr []) # after))"
      and "map_of entries' ''downloads'' = Some (JDict downloads')"
      and "map_of downloads' platform = Some (JDict (before @ after))"
      and "k \<notin> fst ` set (before @ after)"
  shows "get_download_url_for_platform (JDict entries) platform
         = get_download_url_for_platform (JDict entries') platform"
proof -
  have "get_download_url_for_platform (JDict entries) platform
        = finish (or_else (platform_probe platform (JDict (before @ (k, JStr []) # after)))
                         (fallback_scan (JDict (before @ (k, JStr []) # after))))"
    using assms(1,2) by (simp add: get_download_url_for_platform_def)
  moreover have "get_download_url_for_platform (JDict entries') platform
        = (if before @ after = [] then Inr JNull
            else finish (or_else (platform_probe platform (JDict (before @ after)))
                                 (fallback_scan (JDict (before @ after)))))"
    using assms(3,4) by (simp add: get_download_url_for_platform_def)
  ultimately show ?thesis
    by (simp only: homebrew_subtree_empty_entry [OF assms(5)])
qed

lemma winget_empty_entry:
  assumes "map_of entries ''downloads'' = Some (JDict downloads)"
      and "map_of downloads ''Windows'' = Some (JDict (before @ (k, JStr []) # after))"
      and "map_of entries' ''downloads'' = Some (JDict downloads')"
      and "map_of downloads' ''Windows'' = Some (JDict (before @ after))"
      and "k \<notin> fst ` set (before @ after)"
  shows "get_windows_download_url (JDict entries) = get_windows_download_url (JDict entries')"
proof -
  have no: "\<not> startswith [] ''http''" by (simp add: startswith_def)
  have "get_windows_download_url (JDict entries)
        = finish (probe_package_types (\<lambda>s. startswith s ''http'')
                      [''exe'', ''msi'', ''msix'', ''zip''] (JDict (before @ after)))"
    using assms(1,2)
    by (simp add: get_windows_download_url_def
          probe_package_types_empty_entry [OF assms(5), of "\<lambda>s. startswith s ''http''", OF no]
          del: probe_package_types.simps)
  moreover have "get_windows_download_url (JDict entries')
        = (if before @ after = [] then Inr JNull
           else finish (probe_package_types (\<lambda>s. startswith s ''http'')
                      [''exe'', ''msi'', ''msix'', ''zip''] (JDict (before @ after))))"
    using assms(3,4)
    by (simp add: get_windows_download_url_def del: probe_package_types.simps)
  moreover have "finish (probe_package_types (\<lambda>s. startswith s ''http'')
                      [''exe'', ''msi'', ''msix'', ''zip''] (JDict [])) = Inr JNull"
    by (simp only: probe_package_types_no_entries) (simp add: finish_def)
  ultimately show ?thesis by (cases "before @ after = []") simp_all
qed

lemma ipa_empty_entry:
  assumes "map_of entries ''downloads'' = Some (JDict (before @ (''iOS'', JStr []) # after))"
      and "map_of entries' ''downloads'' = Some (JDict (before @ after))"
      and "''iOS'' \<notin> fst ` set (before @ after)"
      and "map_of entries ''platformInstall'' = map_of entries' ''platformInstall''"
      and "map_of entries ''downloadURL'' = map_of entries' ''downloadURL''"
  shows "extract_ipa_url (JDict entries) = extract_ipa_url (JDict entries')"
proof -
  from assms(3) have "''iOS'' \<notin> fst ` set before" by (simp add: image_Un)
  from map_of_fresh_entry [OF this, of "JStr []" after "''iOS''"]
  have with_entry: "map_of (before @ (''iOS'', JStr []) # after) ''iOS'' = Some (JStr [])"
    by (simp only: refl if_True)
  have without: "map_of (before @ after) ''iOS'' = None"
    using assms(3) by (rule map_of_fresh_absent)
  have "ipa_downloads_probe (JDict entries) = Inr None"
    using assms(1) with_entry
    by (simp add: ipa_downloads_probe_def direct_download_def strip_def del: map_of_append)
  moreover have "ipa_downloads_probe (JDict entries') = Inr None"
    using assms(2) without
    by (simp add: ipa_downloads_probe_def direct_download_def del: map_of_append)
  moreover have "ipa_platform_install_probe (JDict entries)
                 = ipa_platform_install_probe (JDict entries')"
    using assms(4) by (simp add: ipa_platform_install_probe_def)
  moreover have "download_url_field (JDict entries) = download_url_field (JDict entries')"
    using assms(5) by (simp add: download_url_field_def)
  ultimately show ?thesis by (simp add: extract_ipa_url_def)
qed

text \<open>
  Claim C6. No resolver ever returns an empty string. The iOS
  resolver returns a non-empty string or \<open>None\<close> on every input. The Homebrew and
  Winget resolvers, whenever they return, return \<open>None\<close> or a non-empty value. An
  entry of the platform subtree (or of \<open>downloads\<close>, for the key \<open>iOS\<close>) whose value
  is the empty string changes nothing: the resolver gives the same result as on the
  record without that key.
\<close>

theorem resolvers_never_return_empty:
  "(\<forall>v. get_download_url_for_platform version platform = Inr v \<longrightarrow> v = JNull \<or> truthy v)
   \<and> (\<forall>v. get_windows_download_url version = Inr v \<longrightarrow> v = JNull \<or> truthy v)
   \<and> (extract_ipa_url version = Inr JNull
        \<or> (\<exists>s. s \<noteq> [] \<and> extract_ipa_url version = Inr (JStr s)))
   \<and> get_download_url_for_platform version platform \<noteq> Inr (JStr [])
   \<and> get_windows_download_url version \<noteq> Inr (JStr [])
   \<and> extract_ipa_url version \<noteq> Inr (JStr [])
   \<and> (map_of entries ''downloads'' = Some (JDict downloads)
        \<and> map_of downloads platform = Some (JDict (before @ (k, JStr []) # after))
        \<and> map_of entries' ''downloads'' = Some (JDict downloads')
        \<and> map_of downloads' platform = Some (JDict (before @ after))
        \<and> k \<notin> fst ` set (before @ after)
        \<longrightarrow> get_download_url_for_platform (JDict entries) platform
            = get_download_url_for_platform (JDict entries') platform)
   \<and> (map_of entries ''downloads'' = Some (JDict downloads)
        \<and> map_of downloads ''Windows'' = Some (JDict (before @ (k, JStr []) # after))
        \<and> map_of entries' ''downloads'' = Some (JDict downloads')
        \<and> map_of downloads' ''Windows'' = Some (JDict (before @ after))
        \<and> k \<notin> fst ` set (before @ after)
        \<longrightarrow> get_windows_download_url (JDict entries) = get_windows_download_url (JDict entries'))
   \<and> (map_of entries ''downloads'' = Some (JDict (before @ (''iOS'', JStr []) # after))
        \<and> map_of entries' ''downloads'' = Some (JDict (before @ after))
        \<and> ''iOS'' \<notin> fst ` set (before @ after)
        \<and> map_of entries ''platformInstall'' = map_of entries' ''platformInstall''
        \<and> map_of entries ''downloadURL'' = map_of entries' ''downloadURL''
        \<longrightarrow> extract_ipa_url (JDict entries) = extract_ipa_url (JDict entries'))"
proof -
  have homebrew: "\<forall>v. get_download_url_for_platform version platform = Inr v
                    \<longrightarrow> v = JNull \<or> truthy v"
    by (blast dest: get_download_url_for_platform_result)
  have winget: "\<forall>v. get_windows_download_url version = Inr v \<longrightarrow> v = JNull \<or> truthy v"
    by (blast dest: get_windows_download_url_result)
  have ios: "extract_ipa_url version = Inr JNull
        \<or> (\<exists>s. s \<noteq> [] \<and> extract_ipa_url version = Inr (JStr s))"
    by (rule extract_ipa_url_result)
  have "get_download_url_for_platform version platform \<noteq> Inr (JStr [])"
    using homebrew by fastforce
  moreover have "get_windows_download_url version \<noteq> Inr (JStr [])"
    using winget by fastforce
  moreover have "extract_ipa_url version \<noteq> Inr (JStr [])"
    using ios by auto
  ultimately show ?thesis
    using homebrew winget ios
    by (intro conjI impI; (elim conjE)?)
       (assumption | erule (4) homebrew_empty_entry | erule (4) winget_empty_entry
         | erule (4) ipa_empty_entry)+
qed

theorem resolvers_never_return_empty_witness:
  "get_download_url_for_platform
     (JDict [(''downloads'', JDict [(''macOS'',
        JDict [(''universal'', JStr []), (''arm64'', JStr ''https://x/a'')])])]) ''macOS''
   = get_download_url_for_platform
     (JDict [(''downloads'', JDict [(''macOS'',
        JDict [(''arm64'', JStr ''https://x/a'')])])]) ''macOS''
   \<and> get_download_url_for_platform
     (JDict [(''downloads'', JDict [(''macOS'',
        JDict [(''arm64'', JStr ''https://x/a'')])])]) ''macOS''
   = Inr (JStr ''https://x/a'')"
proof -
  have "get_download_url_for_platform
     (JDict [(''downloads'', JDict [(''macOS'',
        JDict [(''arm64'', JStr ''https://x/a'')])])]) ''macOS''
   = Inr (JStr ''https://x/a'')"
    by code_simp
  moreover have "get_download_url_for_platform
     (JDict [(''downloads'', JDict [(''macOS'',
        JDict ([] @ (''universal'', JStr []) # [(''arm64'', JStr ''https://x/a'')]))])]) ''macOS''
   = get_download_url_for_platform
     (JDict [(''downloads'', JDict [(''macOS'',
        JDict ([] @ [(''arm64'', JStr ''https://x/a'')]))])]) ''macOS''"
    using resolvers_never_return_empty
      [where entries = "[(''downloads'', JDict [(''macOS'',
                JDict ([] @ (''universal'', JStr []) # [(''arm64'', JStr ''https://x/a'')]))])]"
         and downloads = "[(''macOS'',
                JDict ([] @ (''universal'', JStr []) # [(''arm64'', JStr ''https://x/a'')]))]"
         and entries' = "[(''downloads'', JDict [(''macOS'',
                JDict ([] @ [(''arm64'', JStr ''https://x/a'')]))])]"
         and downloads' = "[(''macOS'', JDict ([] @ [(''arm64'', JStr ''https://x/a'')]))]"
         and platform = "''macOS''" and k = "''universal''" and before = "[]"
         and after = "[(''arm64'', JStr ''https://x/a'')]"]
    by simp
  ultimately show ?thesis by simp
qed

text \<open>
  The desktop resolvers expect a mapping under the platform key. On a URL string in
  its place the Homebrew resolver raises at \<open>.items()\<close>, and the Winget resolver
  raises when a package type occurs in the string.
\<close>

lemma desktop_resolvers_on_string_subtree:
  "get_download_url_for_platform
     (JDict [(''downloads'', JDict [(''macOS'', JStr ''https://x/app.dmg'')])]) ''macOS''
   = Inl AttributeError
   \<and> get_windows_download_url
     (JDict [(''downloads'', JDict [(''Windows'', JStr ''https://x/app.exe'')])])
   = Inl TypeError"
proof -
  have "get_download_url_for_platform
     (JDict [(''downloads'', JDict [(''macOS'', JStr ''https://x/app.dmg'')])]) ''macOS''
   = Inl AttributeError"
    by code_simp
  moreover have "get_windows_download_url
     (JDict [(''downloads'', JDict [(''Windows'', JStr ''https://x/app.exe'')])])
   = Inl TypeError"
    by code_simp
  ultimately show ?thesis by simp
qed

lemma strip_unchanged:
  assumes "s \<noteq> []" and "\<not> is_space (hd s)" and "\<not> is_space (last s)"
  shows "strip s = s"
proof -
  from assms(1,2) have "dropWhile is_space s = s" by (cases s) simp_all
  moreover from assms(1,3) have "dropWhile is_space (rev s) = rev s"
    by (cases "rev s") (simp_all add: hd_rev [symmetric])
  ultimately show ?thesis by (simp add: strip_def)
qed

lemma extract_apk_url_direct:
  assumes "map_of entries ''downloads'' = Some (JDict downloads)"
      and "map_of downloads ''Android'' = Some (JStr s)" and "strip s \<noteq> []"
  shows "extract_apk_url (JDict entries) = Inr (JStr (strip s))"
  using assms
  by (simp add: extract_apk_url_def apk_downloads_probe_def direct_download_def
        or_else_def finish_def)

lemma extract_ipa_url_direct:
  assumes "map_of entries ''downloads'' = Some (JDict downloads)"
      and "map_of downloads ''iOS'' = Some (JStr s)" and "strip s \<noteq> []"
  shows "extract_ipa_url (JDict entries) = Inr (JStr (strip s))"
  using assms
  by (simp add: extract_ipa_url_def ipa_downloads_probe_def direct_download_def
        or_else_def finish_def)

lemma get_android_download_url_nested:
  assumes "map_of entries ''downloads'' = Some (JDict downloads)"
      and "map_of downloads ''Android'' = Some (JDict nested)"
      and "map_of nested ''apk'' = Some (JStr u)" and "u \<noteq> []"
  shows "get_android_download_url (JDict entries) = Inr (JStr u)"
proof -
  from assms(3) have "nested \<noteq> []" by auto
  with assms show ?thesis by (simp add: get_android_download_url_def)
qed

text \<open>
  The first probe of the mobile chain in build.py and build_altstore_repo.py: a
  string under \<open>downloads[platform]\<close> that is not blank is returned with surrounding
  whitespace stripped, whatever its scheme; a string that neither starts nor ends with
  whitespace is returned as it is.
\<close>

lemma direct_download_stripped:
  "(map_of entries ''downloads'' = Some (JDict downloads)
      \<and> map_of downloads ''Android'' = Some (JStr s) \<and> strip s \<noteq> []
      \<longrightarrow> extract_apk_url (JDict entries) = Inr (JStr (strip s)))
   \<and> (map_of entries ''downloads'' = Some (JDict downloads)
      \<and> map_of downloads ''iOS'' = Some (JStr s) \<and> strip s \<noteq> []
      \<longrightarrow> extract_ipa_url (JDict entries) = Inr (JStr (strip s)))
   \<and> (s \<noteq> [] \<and> \<not> is_space (hd s) \<and> \<not> is_space (last s) \<longrightarrow> strip s = s)"
  by (intro conjI impI; (elim conjE)?)
     (assumption | erule (2) extract_apk_url_direct | erule (2) extract_ipa_url_direct
       | erule (2) strip_unchanged)+

lemma direct_download_stripped_example:
  "extract_ipa_url (JDict [(''downloads'', JDict [(''iOS'', JStr ''itms://x/app.ipa'')])])
   = Inr (JStr ''itms://x/app.ipa'')"
proof -
  have s: "strip ''itms://x/app.ipa'' = ''itms://x/app.ipa''" by code_simp
  from direct_download_stripped
    [where entries = "[(''downloads'', JDict [(''iOS'', JStr ''itms://x/app.ipa'')])]"
       and downloads = "[(''iOS'', JStr ''itms://x/app.ipa'')]"
       and s = "''itms://x/app.ipa''"]
  show ?thesis by (simp add: s)
qed

text \<open>
  Claim C4: a record that binds the mobile platform key directly to a non-empty
  string resolves to that string. The code breaks this in the Android resolver of
  build_fdroid_repo.py. On the specification's example, \<open>downloads['Android']\<close>
  being \<open>https://x/app.apk\<close>, the test \<open>'apk' in android_downloads\<close> is a substring
  test and holds, and indexing the string by \<open>'apk'\<close> raises \<open>TypeError\<close>; on a URL
  without \<open>apk\<close> in it the resolver returns \<open>None\<close>. \<open>extract_apk_url\<close> of build.py
  returns the URL on the same record.
\<close>

theorem get_android_download_url_direct_string:
  "get_android_download_url
     (JDict [(''downloads'', JDict [(''Android'', JStr ''https://x/app.apk'')])])
   = Inl TypeError
   \<and> get_android_download_url
     (JDict [(''downloads'', JDict [(''Android'', JStr ''https://x/app.bin'')])])
   = Inr JNull
   \<and> extract_apk_url
     (JDict [(''downloads'', JDict [(''Android'', JStr ''https://x/app.apk'')])])
   = Inr (JStr ''https://x/app.apk'')"
proof -
  have "get_android_download_url
     (JDict [(''downloads'', JDict [(''Android'', JStr ''https://x/app.apk'')])])
   = Inl TypeError"
    by code_simp
  moreover have "get_android_download_url
     (JDict [(''downloads'', JDict [(''Android'', JStr ''https://x/app.bin'')])])
   = Inr JNull"
    by code_simp
  moreover have "extract_apk_url
     (JDict [(''downloads'', JDict [(''Android'', JStr ''https://x/app.apk'')])])
   = Inr (JStr ''https://x/app.apk'')"
    by code_simp
  ultimately show ?thesis by simp
qed

lemma macos_probe_universal:
  assumes "map_of archs ''universal'' = Some (JStr u)" and "u \<noteq> []"
  shows "probe_keys [''universal'', ''arm64'', ''x86_64''] (JDict archs) = Inr (Some (JStr u))"
  using assms by simp

lemma macos_probe_arm64:
  assumes "map_of archs ''universal'' = None"
      and "map_of archs ''arm64'' = Some (JStr a)" and "a \<noteq> []"
  shows "probe_keys [''universal'', ''arm64'', ''x86_64''] (JDict archs) = Inr (Some (JStr a))"
  using assms by simp

lemma macos_resolvers_from_probe:
  assumes "map_of entries ''downloads'' = Some (JDict downloads)"
      and "map_of downloads ''macOS'' = Some (JDict archs)"
      and "probe_keys [''universal'', ''arm64'', ''x86_64''] (JDict archs) = Inr (Some v)"
  shows "get_download_url_for_platform (JDict entries) ''macOS'' = Inr v
         \<and> builder_get_download_url_for_platform (JDict entries) ''macOS'' = Inr v"
proof -
  from assms(3) have "archs \<noteq> []" by (cases archs) simp_all
  with assms show ?thesis
    by (simp add: get_download_url_for_platform_def builder_get_download_url_for_platform_def
          platform_probe_def builder_platform_probe_def or_else_def finish_def
          del: probe_keys.simps)
qed

lemma macos_universal:
  assumes "map_of entries ''downloads'' = Some (JDict downloads)"
      and "map_of downloads ''macOS'' = Some (JDict archs)"
      and "map_of archs ''universal'' = Some (JStr u)" and "u \<noteq> []"
  shows "get_download_url_for_platform (JDict entries) ''macOS'' = Inr (JStr u)
         \<and> builder_get_download_url_for_platform (JDict entries) ''macOS'' = Inr (JStr u)"
  by (rule macos_resolvers_from_probe [OF assms(1,2) macos_probe_universal [OF assms(3,4)]])

lemma macos_arm64:
  assumes "map_of entries ''downloads'' = Some (JDict downloads)"
      and "map_of downloads ''macOS'' = Some (JDict archs)"
      and "map_of archs ''universal'' = None"
      and "map_of archs ''arm64'' = Some (JStr a)" and "a \<noteq> []"
  shows "get_download_url_for_platform (JDict entries) ''macOS'' = Inr (JStr a)
         \<and> builder_get_download_url_for_platform (JDict entries) ''macOS'' = Inr (JStr a)"
  by (rule macos_resolvers_from_probe [OF assms(1,2) macos_probe_arm64 [OF assms(3,4,5)]])

text \<open>
  Claim C7. On a record whose \<open>downloads['macOS']\<close> mapping has a non-empty
  \<open>universal\<close> entry and a non-empty \<open>arm64\<close> entry, both macOS resolvers (the one
  of build_homebrew_tap.py and the one of build.py) return the \<open>universal\<close> entry;
  without a \<open>universal\<close> key they return the \<open>arm64\<close> entry even when an
  \<open>x86_64\<close> entry is present; and the specification's example resolves to
  \<open>https://x/u\<close>.
\<close>

theorem macos_universal_preferred:
  "(map_of entries ''downloads'' = Some (JDict downloads)
      \<and> map_of downloads ''macOS'' = Some (JDict archs)
      \<and> map_of archs ''universal'' = Some (JStr u) \<and> u \<noteq> []
      \<and> map_of archs ''arm64'' = Some (JStr a) \<and> a \<noteq> []
      \<longrightarrow> get_download_url_for_platform (JDict entries) ''macOS'' = Inr (JStr u)
          \<and> builder_get_download_url_for_platform (JDict entries) ''macOS'' = Inr (JStr u))
   \<and> (map_of entries ''downloads'' = Some (JDict downloads)
      \<and> map_of downloads ''macOS'' = Some (JDict archs)
      \<and> map_of archs ''universal'' = None
      \<and> map_of archs ''arm64'' = Some (JStr a) \<and> a \<noteq> []
      \<and> map_of archs ''x86_64'' = Some (JStr x) \<and> x \<noteq> []
      \<longrightarrow> get_download_url_for_platform (JDict entries) ''macOS'' = Inr (JStr a)
          \<and> builder_get_download_url_for_platform (JDict entries) ''macOS'' = Inr (JStr a))
   \<and> get_download_url_for_platform
        (JDict [(''downloads'', JDict [(''macOS'',
           JDict [(''arm64'', JStr ''https://x/a''), (''universal'', JStr ''https://x/u'')])])])
        ''macOS''
      = Inr (JStr ''https://x/u'')"
proof -
  have "get_download_url_for_platform
        (JDict [(''downloads'', JDict [(''macOS'',
           JDict [(''arm64'', JStr ''https://x/a''), (''universal'', JStr ''https://x/u'')])])])
        ''macOS''
      = Inr (JStr ''https://x/u'')"
    by code_simp
  moreover have "get_download_url_for_platform (JDict entries) ''macOS'' = Inr (JStr u)
          \<and> builder_get_download_url_for_platform (JDict entries) ''macOS'' = Inr (JStr u)"
    if "map_of entries ''downloads'' = Some (JDict downloads)"
       "map_of downloads ''macOS'' = Some (JDict archs)"
       "map_of archs ''universal'' = Some (JStr u)" "u \<noteq> []"
    using that by (rule macos_universal)
  moreover have "get_download_url_for_platform (JDict entries) ''macOS'' = Inr (JStr a)
          \<and> builder_get_download_url_for_platform (JDict entries) ''macOS'' = Inr (JStr a)"
    if "map_of entries ''downloads'' = Some (JDict downloads)"
       "map_of downloads ''macOS'' = Some (JDict archs)"
       "map_of archs ''universal'' = None"
       "map_of archs ''arm64'' = Some (JStr a)" "a \<noteq> []"
    using that by (rule macos_arm64)
  ultimately show ?thesis by blast
qed

theorem macos_universal_preferred_witness:
  "builder_get_download_url_for_platform
        (JDict [(''downloads'', JDict [(''macOS'',
           JDict [(''arm64'', JStr ''https://x/a''), (''universal'', JStr ''https://x/u'')])])])
        ''macOS''
      = Inr (JStr ''https://x/u'')
   \<and> get_download_url_for_platform
        (JDict [(''downloads'', JDict [(''macOS'',
           JDict [(''x86_64'', JStr ''https://x/i''), (''arm64'', JStr ''https://x/a'')])])])
        ''macOS''
      = Inr (JStr ''https://x/a'')"
proof -
  from macos_universal_preferred
    [where entries = "[(''downloads'', JDict [(''macOS'',
           JDict [(''arm64'', JStr ''https://x/a''), (''universal'', JStr ''https://x/u'')])])]"
       and downloads = "[(''macOS'',
           JDict [(''arm64'', JStr ''https://x/a''), (''universal'', JStr ''https://x/u'')])]"
       and archs = "[(''arm64'', JStr ''https://x/a''), (''universal'', JStr ''https://x/u'')]"
       and u = "''https://x/u''" and a = "''https://x/a''"]
  have "builder_get_download_url_for_platform
        (JDict [(''downloads'', JDict [(''macOS'',
           JDict [(''arm64'', JStr ''https://x/a''), (''universal'', JStr ''https://x/u'')])])])
        ''macOS''
      = Inr (JStr ''https://x/u'')"
    by simp
  moreover
  from macos_universal_preferred
    [where entries = "[(''downloads'', JDict [(''macOS'',
           JDict [(''x86_64'', JStr ''https://x/i''), (''arm64'', JStr ''https://x/a'')])])]"
       and downloads = "[(''macOS'',
           JDict [(''x86_64'', JStr ''https://x/i''), (''arm64'', JStr ''https://x/a'')])]"
       and archs = "[(''x86_64'', JStr ''https://x/i''), (''arm64'', JStr ''https://x/a'')]"
       and x = "''https://x/i''" and a = "''https://x/a''"]
  have "get_download_url_for_platform
        (JDict [(''downloads'', JDict [(''macOS'',
           JDict [(''x86_64'', JStr ''https://x/i''), (''arm64'', JStr ''https://x/a'')])])])
        ''macOS''
      = Inr (JStr ''https://x/a'')"
    by simp
  ultimately show ?thesis by simp
qed

section \<open>Properties of the emitters and batch loops\<close>

lemma log_and_fail_mapping: "log_and_fail (JDict a) = Inr ([], False)"
  by (simp add: log_and_fail_def)

lemma package_names_append:
  "package_names (xs @ ys) = package_names xs @ package_names ys"
  by (induction xs rule: package_names.induct) simp_all

text \<open>
  For an application that is a mapping, the only exceptions that leave
  \<open>generate_manifests\<close> come from the platform check in front of the \<open>try\<close>.
\<close>

lemma generate_manifests_raises:
  assumes "generate_manifests (JDict a) versions = Inl e"
  shows "versions \<noteq> []
         \<and> (py_get (versions ! 0) ''platforms'' (JList []) = Inl e
            \<or> (\<exists>p. py_get (versions ! 0) ''platforms'' (JList []) = Inr p
                    \<and> py_contains ''Windows'' p = Inl e))"
proof (cases "versions = []")
  case True
  with assms show ?thesis by (simp add: generate_manifests_def log_and_fail_mapping)
next
  case False
  then have first: "py_index versions 0 = Inr (versions ! 0)" by (simp add: py_index_def)
  show ?thesis
  proof (cases "py_get (versions ! 0) ''platforms'' (JList [])")
    case (Inl e')
    with assms False first show ?thesis by (simp add: generate_manifests_def)
  next
    case platforms: (Inr p)
    show ?thesis
    proof (cases "py_contains ''Windows'' p")
      case (Inl e')
      with assms False first platforms show ?thesis by (simp add: generate_manifests_def)
    next
      case (Inr supported)
      with assms False first platforms have False
        by (cases "generate_manifests_try (JDict a) (versions ! 0)")
           (auto simp add: generate_manifests_def log_and_fail_mapping split: if_splits)
      then show ?thesis ..
    qed
  qed
qed

lemma generate_metadata_file_written:
  assumes "generate_metadata_file app versions package_id = Inr (files, generated)"
  shows "length (package_names files) = (if generated then 1 else 0)"
proof (cases "versions = []")
  case True
  with assms show ?thesis by (auto simp add: generate_metadata_file_def)
next
  case False
  with assms obtain download_url where
    url: "get_android_download_url (versions ! 0) = Inr download_url"
    and rest: "(if \<not> truthy download_url then
            py_bind (py_subscript app ''name'') (\<lambda>name. Inl ValueError)
          else
            py_bind (py_subscript app ''name'') (\<lambda>name.
            py_bind (py_subscript (versions ! 0) ''version'') (\<lambda>version.
              Inr ([MetadataFile package_id], True)))) = Inr (files, generated)"
    by (auto simp add: generate_metadata_file_def py_index_def py_bind_eq_Inr)
  show ?thesis
  proof (cases "truthy download_url")
    case True
    with rest have "files = [MetadataFile package_id]" "generated"
      by (auto simp add: py_bind_eq_Inr)
    then show ?thesis by simp
  next
    case False
    with rest show ?thesis by (auto simp add: py_bind_eq_Inr)
  qed
qed

lemma log_and_fail_written:
  "log_and_fail app = Inr (files, generated) \<Longrightarrow>
   length (package_names files) = (if generated then 1 else 0)"
  by (auto simp add: log_and_fail_def py_bind_eq_Inr)

lemma generate_metadata_try_written:
  "generate_metadata_try app versions = Inr (files, generated) \<Longrightarrow>
   length (package_names files) = (if generated then 1 else 0)"
  by (auto simp add: generate_metadata_try_def py_bind_eq_Inr
        dest: generate_metadata_file_written)

lemma generate_metadata_for_app_written:
  assumes "generate_metadata_for_app app versions = Inr (files, generated)"
  shows "length (package_names files) = (if generated then 1 else 0)"
proof (cases "versions = []")
  case True
  with assms show ?thesis
    by (simp add: generate_metadata_for_app_def log_and_fail_written)
next
  case False
  with assms obtain supported where
    rest: "(if \<not> supported then log_and_fail app
          else (case generate_metadata_try app versions of
                  Inl e \<Rightarrow> log_and_fail app
                | Inr emitted \<Rightarrow> Inr emitted)) = Inr (files, generated)"
    by (auto simp add: generate_metadata_for_app_def py_bind_eq_Inr)
  show ?thesis
  proof (cases supported)
    case False
    with rest show ?thesis by (simp add: log_and_fail_written)
  next
    case True
    with rest show ?thesis
      by (cases "generate_metadata_try app versions")
         (auto simp add: log_and_fail_written generate_metadata_try_written)
  qed
qed

lemma process_apps_written:
  assumes emit: "\<And>app versions files generated.
      emit app versions = Inr (files, generated) \<Longrightarrow>
      length (package_names files) = (if generated then 1 else 0)"
  shows "length (package_names (written st)) = generated_count st \<Longrightarrow>
         process_apps emit get_app_versions apps st = (st', outcome) \<Longrightarrow>
         length (package_names (written st')) = generated_count st'"
proof (induction apps arbitrary: st)
  case Nil
  then show ?case by simp
next
  case (Cons app apps)
  show ?case
  proof (cases "py_get app ''slug'' JNull")
    case (Inl e)
    with Cons.prems show ?thesis by simp
  next
    case slug: (Inr slug)
    show ?thesis
    proof (cases "truthy slug")
      case False
      with slug Cons.prems show ?thesis
        by (simp add: Cons.IH [of "st\<lparr>failed_count := failed_count st + 1\<rparr>"])
    next
      case True
      show ?thesis
      proof (cases "emit app (get_app_versions slug)")
        case (Inl e)
        with slug True Cons.prems show ?thesis by simp
      next
        case (Inr emitted)
        obtain files generated where emitted: "emitted = (files, generated)"
          by (cases emitted)
        from emit [OF Inr [unfolded emitted]]
        have count: "length (package_names files) = (if generated then 1 else 0)" .
        show ?thesis
        proof (cases generated)
          case True
          with count Cons.prems(1)
          have "length (package_names (written
                  (st\<lparr>generated_count := generated_count st + 1,
                      written := written st @ files\<rparr>)))
                = generated_count (st\<lparr>generated_count := generated_count st + 1,
                      written := written st @ files\<rparr>)"
            by (simp add: package_names_append)
          from Cons.IH [OF this] slug \<open>truthy slug\<close> Inr emitted True Cons.prems(2)
          show ?thesis by simp
        next
          case False
          with count Cons.prems(1)
          have "length (package_names (written
                  (st\<lparr>failed_count := failed_count st + 1,
                      written := written st @ files\<rparr>)))
                = generated_count (st\<lparr>failed_count := failed_count st + 1,
                      written := written st @ files\<rparr>)"
            by (simp add: package_names_append)
          from Cons.IH [OF this] slug \<open>truthy slug\<close> Inr emitted False Cons.prems(2)
          show ?thesis by simp
        qed
      qed
    qed
  qed
qed

text \<open>
  When \<open>main\<close> of build_fdroid_repo.py returns, it returns 0 exactly when an
  application was written, and 1 otherwise.
\<close>

lemma fdroid_main_completed:
  assumes "snd (fdroid_main apps get_app_versions) = Inr code"
  shows "(code = 0) = (1 \<le> applications_written (fdroid_main apps get_app_versions))
         \<and> (code = 0 \<or> code = 1)"
proof (cases "apps = []")
  case True
  with assms show ?thesis by (auto simp add: fdroid_main_def applications_written_def)
next
  case False
  obtain st outcome where
    loop: "process_apps generate_metadata_for_app get_app_versions apps initial_state
           = (st, outcome)"
    by (cases "process_apps generate_metadata_for_app get_app_versions apps initial_state")
  have "length (package_names (written initial_state)) = generated_count initial_state"
    by (simp add: initial_state_def)
  from process_apps_written [OF generate_metadata_for_app_written this loop]
  have count: "length (package_names (written st)) = generated_count st" .
  show ?thesis
  proof (cases outcome)
    case (Some e)
    with assms False loop show ?thesis by (simp add: fdroid_main_def)
  next
    case None
    with assms False loop count show ?thesis
      by (auto simp add: fdroid_main_def applications_written_def exit_status_def
            package_names_append split: if_splits)
  qed
qed






end
